theory Spec2Isabelle
  imports Main "HOL-Library.Word"
begin

unbundle bit_operations_syntax

section \<open>JavaScript values\<close>

text \<open>
  TypeScript types are erased at run time: what \<open>JSON.parse\<close> returns, what an HTTP
  response carries and what a function receives is a JavaScript value. Numbers are
  restricted to integers (every number the session code computes with is a count of
  seconds); \<open>NaN\<close> only arises as the result of a conversion and is the \<open>None\<close> of
  \<open>js_Number\<close>. An object is its list of own properties, looked up by key.
\<close>

datatype jsval =
    JUndefined
  | JNull
  | JBool bool
  | JNum int
  | JStr string
  | JArr "jsval list"
  | JObj "(string \<times> jsval) list"

text \<open>Truthiness, as \<open>!v\<close>, \<open>v || w\<close> and \<open>if (v)\<close> test it.\<close>

fun truthy :: "jsval \<Rightarrow> bool" where
  "truthy JUndefined = False"
| "truthy JNull = False"
| "truthy (JBool b) = b"
| "truthy (JNum n) = (n \<noteq> 0)"
| "truthy (JStr s) = (s \<noteq> [])"
| "truthy (JArr xs) = True"
| "truthy (JObj ps) = True"

text \<open>\<open>v ?? w\<close>: the right operand only for \<open>null\<close> and \<open>undefined\<close>.\<close>

fun nullish :: "jsval \<Rightarrow> bool" where
  "nullish JUndefined = True"
| "nullish JNull = True"
| "nullish v = False"

definition coalesce :: "jsval \<Rightarrow> jsval \<Rightarrow> jsval" where
  "coalesce v w = (if nullish v then w else v)"

text \<open>
  Errors as values. The class of a thrown error is what \<open>instanceof\<close> and the
  \<open>catch\<close> clauses look at; \<open>AxiosError\<close> carries the response status (when a
  response was received), the error code and the message.
\<close>

datatype exn =
    Error string
  | TypeError string
  | SyntaxError string
  | SystemError string string
  | AuthError string
  | InvalidCredentialsError string
  | MfaRequiredError string
  | MfaCodeInvalidError string
  | AxiosError "int option" string string

text \<open>
  Property access \<open>v.k\<close> for the keys this code reads (none of them a built-in property
  of a string, a number or an array): a \<open>TypeError\<close> on \<open>null\<close> and \<open>undefined\<close>,
  the property or \<open>undefined\<close> on an object, \<open>undefined\<close> on anything else.
\<close>

fun lookup_prop :: "(string \<times> jsval) list \<Rightarrow> string \<Rightarrow> jsval" where
  "lookup_prop [] k = JUndefined"
| "lookup_prop ((k', v) # ps) k = (if k' = k then v else lookup_prop ps k)"

fun get_prop :: "jsval \<Rightarrow> string \<Rightarrow> exn + jsval" where
  "get_prop JUndefined k = Inl (TypeError ''Cannot read properties of undefined'')"
| "get_prop JNull k = Inl (TypeError ''Cannot read properties of null'')"
| "get_prop (JObj ps) k = Inr (lookup_prop ps k)"
| "get_prop v k = Inr JUndefined"

text \<open>Optional chaining \<open>v?.k\<close>.\<close>

definition get_opt :: "jsval \<Rightarrow> string \<Rightarrow> jsval" where
  "get_opt v k = (case get_prop v k of Inl e \<Rightarrow> JUndefined | Inr w \<Rightarrow> w)"

text \<open>\<open>String(v)\<close>.\<close>

definition digit_char :: "nat \<Rightarrow> char" where
  "digit_char d = ''0123456789'' ! d"

function digits_of_int :: "int \<Rightarrow> string" where
  "digits_of_int n =
     (if n < 10 then [digit_char (nat n)]
      else digits_of_int (n div 10) @ [digit_char (nat (n mod 10))])"
  by pat_completeness auto
termination
  by (relation "measure nat") auto

declare digits_of_int.simps [simp del]

definition string_of_int :: "int \<Rightarrow> string" where
  "string_of_int i = (if i < 0 then CHR ''-'' # digits_of_int (- i) else digits_of_int i)"

definition string_of_nat :: "nat \<Rightarrow> string" where
  "string_of_nat n = digits_of_int (int n)"

fun join :: "string \<Rightarrow> string list \<Rightarrow> string" where
  "join sep [] = []"
| "join sep [x] = x"
| "join sep (x # y # ys) = x @ sep @ join sep (y # ys)"

fun js_String :: "jsval \<Rightarrow> string" where
  "js_String JUndefined = ''undefined''"
| "js_String JNull = ''null''"
| "js_String (JBool b) = (if b then ''true'' else ''false'')"
| "js_String (JNum n) = string_of_int n"
| "js_String (JStr s) = s"
| "js_String (JArr xs) =
     join '','' (map (\<lambda>x. if x = JUndefined \<or> x = JNull then [] else js_String x) xs)"
| "js_String (JObj ps) = ''[object Object]''"

text \<open>
  \<open>Number(v)\<close>; \<open>None\<close> is \<open>NaN\<close>. A string converts when, trimmed, it is empty or an
  optionally signed run of decimal digits; the other numeric literals of JavaScript
  (fractions, exponents, hexadecimal, \<open>Infinity\<close>) are outside the integers of this model
  and convert to \<open>NaN\<close> here.
\<close>

definition is_space :: "char \<Rightarrow> bool" where
  "is_space c \<longleftrightarrow> c \<in> set [CHR '' '', CHR 0x09, CHR 0x0A, CHR 0x0B, CHR 0x0C, CHR 0x0D]"

definition trim :: "string \<Rightarrow> string" where
  "trim s = rev (dropWhile is_space (rev (dropWhile is_space s)))"

definition digit_val :: "char \<Rightarrow> nat option" where
  "digit_val c =
     (let n = (of_char c :: nat) in if 48 \<le> n \<and> n \<le> 57 then Some (n - 48) else None)"

fun digits_val :: "nat \<Rightarrow> string \<Rightarrow> nat option" where
  "digits_val acc [] = Some acc"
| "digits_val acc (c # cs) =
     (case digit_val c of None \<Rightarrow> None | Some d \<Rightarrow> digits_val (10 * acc + d) cs)"

definition StringToNumber :: "string \<Rightarrow> int option" where
  "StringToNumber s =
     (case trim s of
        [] \<Rightarrow> Some 0
      | c # cs \<Rightarrow>
          if c = CHR ''-'' \<and> cs \<noteq> [] then map_option (\<lambda>n. - int n) (digits_val 0 cs)
          else if c = CHR ''+'' \<and> cs \<noteq> [] then map_option int (digits_val 0 cs)
          else if c = CHR ''-'' \<or> c = CHR ''+'' then None
          else map_option int (digits_val 0 (c # cs)))"

fun js_Number :: "jsval \<Rightarrow> int option" where
  "js_Number JUndefined = None"
| "js_Number JNull = Some 0"
| "js_Number (JBool b) = Some (if b then 1 else 0)"
| "js_Number (JNum n) = Some n"
| "js_Number (JStr s) = StringToNumber s"
| "js_Number (JArr xs) = StringToNumber (js_String (JArr xs))"
| "js_Number (JObj ps) = None"

text \<open>\<open>Number(v) || 0\<close>: \<open>NaN\<close> and \<open>0\<close> are falsy.\<close>

definition number_or_zero :: "jsval \<Rightarrow> int" where
  "number_or_zero v = (case js_Number v of None \<Rightarrow> 0 | Some n \<Rightarrow> if n \<noteq> 0 then n else 0)"

text \<open>
  Setting a property of an object (in an object literal, by a spread or by assignment):
  it replaces the property of that name, or is added after the others.
\<close>

fun set_prop :: "(string \<times> 'a) list \<Rightarrow> string \<Rightarrow> 'a \<Rightarrow> (string \<times> 'a) list" where
  "set_prop [] k v = [(k, v)]"
| "set_prop ((k', v') # ps) k v =
     (if k' = k then (k, v) # ps else (k', v') # set_prop ps k v)"

section \<open>Session types (types.ts)\<close>

text \<open>
  An optional property \<open>k?: string | null\<close> is absent (or \<open>undefined\<close>), \<open>null\<close> or
  a string.
\<close>

datatype 'a optional = Absent | Null | Present 'a

record OAuth1Token =
  oauth_token :: string
  oauth_token_secret :: string
  mfa_token :: "string optional"
  mfa_expiration_timestamp :: "string optional"
  domain :: "string optional"

record OAuth2Token =
  scope :: string
  jti :: string
  token_type :: string
  access_token :: string
  refresh_token :: string
  expires_in :: int
  expires_at :: int
  refresh_token_expires_in :: int
  refresh_token_expires_at :: int

record GarminSession =
  oauth1 :: OAuth1Token
  oauth2 :: OAuth2Token
  domain :: string

text \<open>
  The JavaScript object a typed value is, as \<open>JSON.stringify\<close> writes it and
  \<open>JSON.parse\<close> reads it back: an absent property is not written.
\<close>

fun js_optional :: "string \<Rightarrow> string optional \<Rightarrow> (string \<times> jsval) list" where
  "js_optional k Absent = []"
| "js_optional k Null = [(k, JNull)]"
| "js_optional k (Present s) = [(k, JStr s)]"

definition js_of_oauth1 :: "OAuth1Token \<Rightarrow> jsval" where
  "js_of_oauth1 t = JObj (
     [(''oauth_token'', JStr (oauth_token t)),
      (''oauth_token_secret'', JStr (oauth_token_secret t))]
     @ js_optional ''mfa_token'' (mfa_token t)
     @ js_optional ''mfa_expiration_timestamp'' (mfa_expiration_timestamp t)
     @ js_optional ''domain'' (OAuth1Token.domain t))"

definition js_of_oauth2 :: "OAuth2Token \<Rightarrow> jsval" where
  "js_of_oauth2 t = JObj
     [(''scope'', JStr (scope t)),
      (''jti'', JStr (jti t)),
      (''token_type'', JStr (token_type t)),
      (''access_token'', JStr (access_token t)),
      (''refresh_token'', JStr (refresh_token t)),
      (''expires_in'', JNum (expires_in t)),
      (''expires_at'', JNum (expires_at t)),
      (''refresh_token_expires_in'', JNum (refresh_token_expires_in t)),
      (''refresh_token_expires_at'', JNum (refresh_token_expires_at t))]"

section \<open>The file system and JSON, as the token store uses them\<close>

text \<open>
  The token store sees a file only through \<open>existsSync\<close>, \<open>readFileSync\<close> followed by
  \<open>JSON.parse\<close>, \<open>writeFileSync\<close> of a \<open>JSON.stringify\<close> text, \<open>mkdirSync\<close> and
  \<open>unlinkSync\<close>. A file's text is therefore represented by what \<open>JSON.parse\<close> makes of
  it: a value, or a syntax error. A path can also name a directory, or a file that
  exists and cannot be read or written (permissions).
\<close>

datatype file_content = NotJson | Json jsval

datatype node = Directory | Protected | File file_content

type_synonym fs = "string \<Rightarrow> node option"

text \<open>\<open>join(dir, name)\<close> of \<open>node:path\<close>, without its normalisation of the result.\<close>

definition path_join :: "string \<Rightarrow> string \<Rightarrow> string" where
  "path_join dir name = dir @ ''/'' @ name"

definition existsSync :: "fs \<Rightarrow> string \<Rightarrow> bool" where
  "existsSync fs p \<longleftrightarrow> fs p \<noteq> None"

definition readFileSync :: "fs \<Rightarrow> string \<Rightarrow> exn + file_content" where
  "readFileSync fs p =
     (case fs p of
        None \<Rightarrow> Inl (SystemError ''ENOENT'' ''no such file or directory'')
      | Some Directory \<Rightarrow> Inl (SystemError ''EISDIR'' ''illegal operation on a directory'')
      | Some Protected \<Rightarrow> Inl (SystemError ''EACCES'' ''permission denied'')
      | Some (File c) \<Rightarrow> Inr c)"

definition JSON_parse :: "file_content \<Rightarrow> exn + jsval" where
  "JSON_parse c =
     (case c of NotJson \<Rightarrow> Inl (SyntaxError ''Unexpected token'') | Json v \<Rightarrow> Inr v)"

text \<open>\<open>mkdirSync(dir, { recursive: true })\<close>: no error when the directory exists.\<close>

definition mkdirSync :: "fs \<Rightarrow> string \<Rightarrow> exn + fs" where
  "mkdirSync fs dir =
     (case fs dir of
        None \<Rightarrow> Inr (fs(dir \<mapsto> Directory))
      | Some Directory \<Rightarrow> Inr fs
      | Some other \<Rightarrow> Inl (SystemError ''EEXIST'' ''file already exists''))"

definition writeFileSync :: "fs \<Rightarrow> string \<Rightarrow> file_content \<Rightarrow> exn + fs" where
  "writeFileSync fs p c =
     (case fs p of
        Some Directory \<Rightarrow> Inl (SystemError ''EISDIR'' ''illegal operation on a directory'')
      | Some Protected \<Rightarrow> Inl (SystemError ''EACCES'' ''permission denied'')
      | other \<Rightarrow> Inr (fs(p \<mapsto> File c)))"

section \<open>Token store (token-store.ts)\<close>

text \<open>\<open>getSsoDomain(isCn)\<close> of sso-urls.ts; \<open>isCn\<close> may be omitted.\<close>

definition getSsoDomain :: "bool option \<Rightarrow> string" where
  "getSsoDomain isCn = (if isCn = Some True then ''garmin.cn'' else ''garmin.com'')"

text \<open>
  Object spread \<open>{ ...v }\<close>: the own properties of an object, the indexed elements of an
  array or a string, nothing of any other value.
\<close>

fun spread :: "jsval \<Rightarrow> (string \<times> jsval) list" where
  "spread (JObj ps) = ps"
| "spread (JArr xs) = zip (map string_of_nat [0..<length xs]) xs"
| "spread (JStr s) = zip (map string_of_nat [0..<length s]) (map (\<lambda>c. JStr [c]) s)"
| "spread v = []"

text \<open>
  What \<open>loadTokenStore\<close> returns is whatever the two files held: the casts
  \<open>as OAuth1Token\<close> and \<open>as OAuth2Token\<close> check nothing.
\<close>

record loaded_session =
  loaded_oauth1 :: jsval
  loaded_oauth2 :: jsval
  loaded_domain :: jsval

text \<open>The body of the \<open>try\<close> block of \<open>loadTokenStore\<close>.\<close>

definition loadTokenStore_try ::
  "fs \<Rightarrow> string \<Rightarrow> string \<Rightarrow> bool option \<Rightarrow> exn + loaded_session option" where
  "loadTokenStore_try fs oauth1Path oauth2Path isCn =
     (case readFileSync fs oauth1Path of Inl e \<Rightarrow> Inl e | Inr text1 \<Rightarrow>
      case JSON_parse text1 of Inl e \<Rightarrow> Inl e | Inr oauth1_js \<Rightarrow>
      case readFileSync fs oauth2Path of Inl e \<Rightarrow> Inl e | Inr text2 \<Rightarrow>
      case JSON_parse text2 of Inl e \<Rightarrow> Inl e | Inr oauth2_js \<Rightarrow>
      case get_prop oauth1_js ''oauth_token'' of Inl e \<Rightarrow> Inl e | Inr tok \<Rightarrow>
      if \<not> truthy tok then Inr None else
      case get_prop oauth1_js ''oauth_token_secret'' of Inl e \<Rightarrow> Inl e | Inr sec \<Rightarrow>
      if \<not> truthy sec then Inr None else
      case get_prop oauth2_js ''access_token'' of Inl e \<Rightarrow> Inl e | Inr acc \<Rightarrow>
      if \<not> truthy acc then Inr None else
      case get_prop oauth1_js ''domain'' of Inl e \<Rightarrow> Inl e | Inr d \<Rightarrow>
      let domain_js = coalesce d (JStr (getSsoDomain isCn)) in
      Inr (Some \<lparr> loaded_oauth1 = JObj (set_prop (spread oauth1_js) ''domain'' domain_js),
                  loaded_oauth2 = oauth2_js,
                  loaded_domain = domain_js \<rparr>))"

text \<open>
  \<open>loadTokenStore(tokenDir, isCn)\<close>: \<open>Inl\<close> would be an exception leaving the function,
  \<open>Inr None\<close> is the \<open>null\<close> it returns. The \<open>debug\<close> calls only log.
\<close>

definition loadTokenStore :: "fs \<Rightarrow> string \<Rightarrow> bool option \<Rightarrow> exn + loaded_session option" where
  "loadTokenStore fs tokenDir isCn =
     (let oauth1Path = path_join tokenDir ''oauth1_token.json'';
          oauth2Path = path_join tokenDir ''oauth2_token.json''
      in if \<not> existsSync fs oauth1Path \<or> \<not> existsSync fs oauth2Path then Inr None
         else case loadTokenStore_try fs oauth1Path oauth2Path isCn of
                Inl e \<Rightarrow> Inr None
              | Inr r \<Rightarrow> Inr r)"

text \<open>
  The three properties \<open>loadTokenStore\<close> tests before it returns a session, read
  from the values the two files hold.
\<close>

definition required_fields_present :: "jsval \<Rightarrow> jsval \<Rightarrow> bool" where
  "required_fields_present o1 o2 \<longleftrightarrow>
     truthy (get_opt o1 ''oauth_token'') \<and> truthy (get_opt o1 ''oauth_token_secret'')
     \<and> truthy (get_opt o2 ''access_token'')"

text \<open>
  \<open>saveTokenStore(tokenDir, session)\<close>. The first file holds
  \<open>{ ...session.oauth1, domain: session.domain }\<close>, the second \<open>session.oauth2\<close>. An
  exception of \<open>mkdirSync\<close> or \<open>writeFileSync\<close> leaves the function; the file system
  is returned as it then is.
\<close>

definition saveTokenStore :: "fs \<Rightarrow> string \<Rightarrow> GarminSession \<Rightarrow> exn option \<times> fs" where
  "saveTokenStore fs tokenDir session =
     (case mkdirSync fs tokenDir of Inl e \<Rightarrow> (Some e, fs) | Inr fs1 \<Rightarrow>
      case writeFileSync fs1 (path_join tokenDir ''oauth1_token.json'')
             (Json (js_of_oauth1 ((oauth1 session)\<lparr>OAuth1Token.domain := Present (domain session)\<rparr>)))
      of Inl e \<Rightarrow> (Some e, fs1) | Inr fs2 \<Rightarrow>
      case writeFileSync fs2 (path_join tokenDir ''oauth2_token.json'')
             (Json (js_of_oauth2 (oauth2 session)))
      of Inl e \<Rightarrow> (Some e, fs2) | Inr fs3 \<Rightarrow> (None, fs3))"

text \<open>
  \<open>Math.floor(Date.now() / 1000)\<close>: the clock is an input, in milliseconds since the
  epoch; \<open>div\<close> on \<open>int\<close> rounds down, as \<open>Math.floor\<close> does.
\<close>

definition unix_seconds :: "int \<Rightarrow> int" where
  "unix_seconds now_ms = now_ms div 1000"

definition isOAuth2Expired :: "int \<Rightarrow> OAuth2Token \<Rightarrow> int \<Rightarrow> bool" where
  "isOAuth2Expired now_ms token marginSeconds \<longleftrightarrow>
     expires_at token - marginSeconds < unix_seconds now_ms"

text \<open>The default argument \<open>marginSeconds = 60\<close>.\<close>

definition isOAuth2Expired_default :: "int \<Rightarrow> OAuth2Token \<Rightarrow> bool" where
  "isOAuth2Expired_default now_ms token = isOAuth2Expired now_ms token 60"

section \<open>Credential exchange (oauth-exchange.ts)\<close>

record http_response =
  status :: int
  data :: jsval

text \<open>
  \<open>exchangeOAuth2\<close>, from the point where \<open>await axios.post(...)\<close> settles: \<open>res\<close> is
  the outcome of the request (axios rejects, or resolves with a response) and
  \<open>now_ms\<close> is \<open>Date.now()\<close> read after it. The text of the error message is
  shortened.
\<close>

definition exchangeOAuth2 :: "exn + http_response \<Rightarrow> int \<Rightarrow> exn + OAuth2Token" where
  "exchangeOAuth2 res now_ms =
     (case res of Inl e \<Rightarrow> Inl e | Inr r \<Rightarrow>
      if status r \<ge> 400 then Inl (Error (''Exchange failed: '' @ string_of_int (status r)))
      else
        let raw = data r; now = unix_seconds now_ms in
        case get_prop raw ''expires_in'' of Inl e \<Rightarrow> Inl e | Inr expires_in_raw \<Rightarrow>
        let expiresIn = number_or_zero expires_in_raw;
            refreshExpiresIn = number_or_zero (get_opt raw ''refresh_token_expires_in'')
        in Inr \<lparr> scope = js_String (coalesce (get_opt raw ''scope'') (JStr [])),
                 jti = js_String (coalesce (get_opt raw ''jti'') (JStr [])),
                 token_type = js_String (coalesce (get_opt raw ''token_type'') (JStr ''Bearer'')),
                 access_token = js_String (coalesce (get_opt raw ''access_token'') (JStr [])),
                 refresh_token = js_String (coalesce (get_opt raw ''refresh_token'') (JStr [])),
                 expires_in = expiresIn,
                 expires_at = now + expiresIn,
                 refresh_token_expires_in = refreshExpiresIn,
                 refresh_token_expires_at = now + refreshExpiresIn \<rparr>)"

section \<open>Authenticated request client (client.ts)\<close>

text \<open>\<open>isAxiosError(err)\<close> and \<open>err.response?.status\<close>.\<close>

fun isAxiosError :: "exn \<Rightarrow> bool" where
  "isAxiosError (AxiosError st c m) = True"
| "isAxiosError e = False"

fun response_status :: "exn \<Rightarrow> int option" where
  "response_status (AxiosError st c m) = st"
| "response_status e = None"

text \<open>
  \<open>err.code\<close> (the empty string when the error has no \<open>code\<close> property) and
  \<open>err.message\<close>.
\<close>

fun err_code :: "exn \<Rightarrow> string" where
  "err_code (AxiosError st c m) = c"
| "err_code (SystemError c m) = c"
| "err_code e = []"

fun err_message :: "exn \<Rightarrow> string" where
  "err_message (Error m) = m"
| "err_message (TypeError m) = m"
| "err_message (SyntaxError m) = m"
| "err_message (SystemError c m) = m"
| "err_message (AuthError m) = m"
| "err_message (InvalidCredentialsError m) = m"
| "err_message (MfaRequiredError m) = m"
| "err_message (MfaCodeInvalidError m) = m"
| "err_message (AxiosError st c m) = m"

text \<open>\<open>s.includes(needle)\<close>.\<close>

fun starts_with :: "string \<Rightarrow> string \<Rightarrow> bool" where
  "starts_with s [] = True"
| "starts_with [] (c # cs) = False"
| "starts_with (x # xs) (c # cs) = (x = c \<and> starts_with xs cs)"

fun str_includes :: "string \<Rightarrow> string \<Rightarrow> bool" where
  "str_includes [] needle = (needle = [])"
| "str_includes (x # xs) needle = (starts_with (x # xs) needle \<or> str_includes xs needle)"

definition isRetryableNetworkError :: "exn \<Rightarrow> bool" where
  "isRetryableNetworkError err \<longleftrightarrow>
     err_code err = ''ECONNRESET'' \<or> err_code err = ''ETIMEDOUT''
     \<or> err_code err = ''ECONNABORTED'' \<or> str_includes (err_message err) ''socket hang up''"

definition isRetryableGatewayStatus :: "int \<Rightarrow> bool" where
  "isRetryableGatewayStatus st \<longleftrightarrow> st = 502 \<or> st = 503 \<or> st = 504"

text \<open>
  What \<open>requestWithAuthRetry\<close> does to the outside is a sequence of events: a call of
  \<open>doRequest\<close>, a call of \<open>this.refreshSession\<close>, a pause. The outside answers: the
  \<open>n\<close>-th call of \<open>doRequest\<close> settles as \<open>responses w n\<close> (axios rejects with an
  error, or resolves with a response), the \<open>n\<close>-th call of \<open>refreshSession\<close> throws
  \<open>refresh_results w n\<close> or, for \<open>None\<close>, succeeds. The trace records the events in
  order.
\<close>

datatype event = Request | Refresh | Sleep nat

type_synonym trace = "event list"

record world =
  responses :: "nat \<Rightarrow> exn + http_response"
  refresh_results :: "nat \<Rightarrow> exn option"

definition requests :: "trace \<Rightarrow> nat" where
  "requests tr = length (filter (\<lambda>e. e = Request) tr)"

definition refreshes :: "trace \<Rightarrow> nat" where
  "refreshes tr = length (filter (\<lambda>e. e = Refresh) tr)"

definition doRequest :: "world \<Rightarrow> trace \<Rightarrow> (exn + http_response) \<times> trace" where
  "doRequest w tr = (responses w (requests tr), tr @ [Request])"

definition refreshSession :: "world \<Rightarrow> trace \<Rightarrow> exn option \<times> trace" where
  "refreshSession w tr = (refresh_results w (refreshes tr), tr @ [Refresh])"

text \<open>
  How a piece of the \<open>try\<close> block ends: \<open>Return r\<close> leaves the function with the
  settled promise \<open>r\<close>; \<open>Throw err\<close> goes to the outer \<open>catch\<close>.
\<close>

datatype completion = Return "exn + http_response" | Throw exn

text \<open>
  \<open>await this.refreshSession(); return doRequest();\<close> The promise of the retry is
  returned without \<open>await\<close>: if it rejects, no \<open>catch\<close> of this function sees it.
\<close>

definition refresh_and_retry :: "world \<Rightarrow> trace \<Rightarrow> completion \<times> trace" where
  "refresh_and_retry w tr =
     (case refreshSession w tr of
        (Some e, tr1) \<Rightarrow> (Throw e, tr1)
      | (None, tr1) \<Rightarrow> (case doRequest w tr1 of (r, tr2) \<Rightarrow> (Return r, tr2)))"

text \<open>
  The loop \<open>for (g = 1; g < totalGatewayAttempts; g++)\<close> of the \<open>catch\<close> branch, with
  \<open>n\<close> iterations left; \<open>err\<close> is the error of the first request, thrown when the
  loop runs out.
\<close>

fun gateway_retry_thrown :: "world \<Rightarrow> nat \<Rightarrow> exn \<Rightarrow> trace \<Rightarrow> completion \<times> trace" where
  "gateway_retry_thrown w 0 err tr = (Throw err, tr)"
| "gateway_retry_thrown w (Suc n) err tr =
     (case doRequest w (tr @ [Sleep 5000]) of
        (Inr res, tr1) \<Rightarrow> (Return (Inr res), tr1)
      | (Inl retryErr, tr1) \<Rightarrow>
          (case (if isAxiosError retryErr then response_status retryErr else None) of
             None \<Rightarrow> (Throw retryErr, tr1)
           | Some retryStatus \<Rightarrow>
               if \<not> isRetryableGatewayStatus retryStatus then (Throw retryErr, tr1)
               else gateway_retry_thrown w n err tr1))"

text \<open>The same loop after a response that resolved with a gateway status.\<close>

fun gateway_retry_resolved ::
  "world \<Rightarrow> nat \<Rightarrow> http_response \<Rightarrow> trace \<Rightarrow> completion \<times> trace" where
  "gateway_retry_resolved w 0 res tr = (Return (Inr res), tr)"
| "gateway_retry_resolved w (Suc n) res tr =
     (case doRequest w (tr @ [Sleep 5000]) of
        (Inl e, tr1) \<Rightarrow> (Throw e, tr1)
      | (Inr retryRes, tr1) \<Rightarrow>
          if status retryRes < 400 \<or> \<not> isRetryableGatewayStatus (status retryRes)
          then (Return (Inr retryRes), tr1)
          else gateway_retry_resolved w n retryRes tr1)"

text \<open>The body of the outer \<open>try\<close>: one connection attempt.\<close>

definition attempt_body :: "world \<Rightarrow> nat \<Rightarrow> trace \<Rightarrow> completion \<times> trace" where
  "attempt_body w gatewayRetries tr =
     (case doRequest w tr of
        (Inl err, tr1) \<Rightarrow>
          if isAxiosError err \<and> response_status err = Some 401 then refresh_and_retry w tr1
          else
            (case (if isAxiosError err then response_status err else None) of
               None \<Rightarrow> (Throw err, tr1)
             | Some st \<Rightarrow>
                 if isRetryableGatewayStatus st
                 then gateway_retry_thrown w gatewayRetries err tr1
                 else (Throw err, tr1))
      | (Inr res, tr1) \<Rightarrow>
          if status res = 401 then refresh_and_retry w tr1
          else if isRetryableGatewayStatus (status res)
          then gateway_retry_resolved w gatewayRetries res tr1
          else (Return (Inr res), tr1))"

text \<open>
  The loop \<open>for (attempt = 0; attempt <= connectionRetries; attempt++)\<close>, with
  \<open>remaining = connectionRetries - attempt\<close>. The counts are natural numbers; no caller
  passes them, so they are the defaults 2 and 2.
\<close>

fun attempt_loop :: "world \<Rightarrow> nat \<Rightarrow> nat \<Rightarrow> trace \<Rightarrow> (exn + http_response) \<times> trace" where
  "attempt_loop w gatewayRetries 0 tr =
     (case attempt_body w gatewayRetries tr of
        (Return r, tr1) \<Rightarrow> (r, tr1)
      | (Throw err, tr1) \<Rightarrow> (Inl err, tr1))"
| "attempt_loop w gatewayRetries (Suc remaining) tr =
     (case attempt_body w gatewayRetries tr of
        (Return r, tr1) \<Rightarrow> (r, tr1)
      | (Throw err, tr1) \<Rightarrow>
          if isRetryableNetworkError err
          then attempt_loop w gatewayRetries remaining (tr1 @ [Sleep 1000])
          else (Inl err, tr1))"

definition requestWithAuthRetry ::
  "world \<Rightarrow> nat \<Rightarrow> nat \<Rightarrow> (exn + http_response) \<times> trace" where
  "requestWithAuthRetry w connectionRetries gatewayRetries =
     attempt_loop w gatewayRetries connectionRetries []"




fun gateway_error :: "exn \<Rightarrow> bool" where
  "gateway_error (AxiosError (Some st) c m) = isRetryableGatewayStatus st"
| "gateway_error e = False"

fun other_status_error :: "exn \<Rightarrow> bool" where
  "other_status_error (AxiosError (Some st) c m) = (\<not> isRetryableGatewayStatus st)"
| "other_status_error e = False"

definition gateway_rejection :: "exn + http_response \<Rightarrow> bool" where
  "gateway_rejection r =
     (case r of Inl err \<Rightarrow> gateway_error err \<and> \<not> isRetryableNetworkError err
              | Inr res \<Rightarrow> False)"

definition gateway_response :: "exn + http_response \<Rightarrow> bool" where
  "gateway_response r =
     (case r of Inl err \<Rightarrow> False | Inr res \<Rightarrow> isRetryableGatewayStatus (status res))"

text \<open>The trace of \<open>n\<close> gateway retries: a pause of five seconds before each request.\<close>

definition gateway_retries_trace :: "nat \<Rightarrow> trace" where
  "gateway_retries_trace n = concat (replicate n [Sleep 5000, Request])"

text \<open>The trace of \<open>k\<close> failed connection attempts, each followed by a pause of a second.\<close>

definition connection_retries_trace :: "nat \<Rightarrow> trace" where
  "connection_retries_trace k = concat (replicate k [Request, Sleep 1000])"


section \<open>Login (auth.ts, sso-mobile.ts)\<close>

datatype strategy = mobile | embed | auto

record GarminConfig =
  email :: "string option"
  password :: "string option"
  tokenDir :: "string option"
  isCn :: "bool option"
  authStrategy :: "strategy option"

text \<open>\<open>LoginOptions\<close> after the destructuring with its default \<open>returnOnMfa = false\<close>.\<close>

record LoginOptions =
  returnOnMfa :: bool
  mfaCode :: "string option"

datatype mfa_source = embed_source | mobile_source

datatype mfa_method = email_method | sms_method | phone_method

record NeedsMfaState =
  signinParams :: "(string \<times> string) list"
  cookies :: string
  state_domain :: string
  csrf :: string
  source :: "mfa_source option"
  mfaMethod :: "mfa_method option"

datatype ticket_result = success jsval | mfa_required NeedsMfaState

datatype LoginResult = session_result GarminSession | needsMfa NeedsMfaState

record OAuthConsumerKeys =
  consumer_key :: string
  consumer_secret :: string

definition MOBILE_OAUTH_CONSUMER :: OAuthConsumerKeys where
  "MOBILE_OAUTH_CONSUMER = \<lparr> consumer_key = ''fc3e99d2-118c-44b8-8ae3-03370dde24c0'',
     consumer_secret = ''E08WAR897WEy2knn7aFBrvegVAf0AFdWBBF'' \<rparr>"

definition getMobileServiceUrl :: "string \<Rightarrow> string" where
  "getMobileServiceUrl domain_name = ''https://mobile.integration.garmin.com/gcm/ios''"

text \<open>
  The body of a reply as the mobile flow reads it,
  \<open>typeof res.data === 'object' && res.data !== null ? res.data : JSON.parse(String(res.data))\<close>:
  a JSON value, or text that \<open>JSON.parse\<close> rejects.
\<close>

datatype reply_body = JsonBody jsval | TextBody

text \<open>
  What the mobile flow meets outside: the three requests (each may fail in axios; no
  status is an error, \<open>validateStatus: () => true\<close>), the cookie header the collected
  cookies make, and the process (\<open>GARMIN_MFA_CODE\<close>, whether stdin is a terminal, the
  line typed at the prompt).
\<close>

record mobile_world =
  signin_page :: "exn option"
  login_reply :: "exn + reply_body"
  verify_reply :: "string \<Rightarrow> mfa_method \<Rightarrow> exn + reply_body"
  cookie_header :: string
  GARMIN_MFA_CODE :: "string option"
  isTTY :: bool
  prompt_answer :: string

text \<open>\<open>s?.trim()\<close> followed by a truthiness test: the trimmed string, when non-empty.\<close>

definition trimmed :: "string option \<Rightarrow> string option" where
  "trimmed s = map_option trim s"

definition present :: "string option \<Rightarrow> bool" where
  "present s \<longleftrightarrow> (case s of None \<Rightarrow> False | Some v \<Rightarrow> v \<noteq> [])"

text \<open>\<open>v || w\<close> on values.\<close>

definition js_or :: "jsval \<Rightarrow> jsval \<Rightarrow> jsval" where
  "js_or v w = (if truthy v then v else w)"

text \<open>\<open>data.responseStatus?.type\<close> and \<open>data.responseStatus?.message\<close>.\<close>

definition responseStatus_type :: "jsval \<Rightarrow> exn + jsval" where
  "responseStatus_type d =
     (case get_prop d ''responseStatus'' of Inl e \<Rightarrow> Inl e | Inr rs \<Rightarrow> Inr (get_opt rs ''type''))"

definition responseStatus_message :: "jsval \<Rightarrow> jsval" where
  "responseStatus_message d = get_opt (get_opt d ''responseStatus'') ''message''"

text \<open>\<open>s.toLowerCase()\<close>, on ASCII letters.\<close>

definition lower_char :: "char \<Rightarrow> char" where
  "lower_char c =
     (let n = (of_char c :: nat) in if 65 \<le> n \<and> n \<le> 90 then char_of (n + 32) else c)"

definition toLowerCase :: "string \<Rightarrow> string" where
  "toLowerCase s = map lower_char s"

text \<open>\<open>verifyMobileMfa\<close>: the reply to the code, or the error it stands for.\<close>

definition verifyMobileMfa :: "mobile_world \<Rightarrow> string \<Rightarrow> mfa_method \<Rightarrow> exn + jsval" where
  "verifyMobileMfa w code method =
     (case verify_reply w code method of
        Inl e \<Rightarrow> Inl e
      | Inr TextBody \<Rightarrow> Inl (SyntaxError ''Unexpected token'')
      | Inr (JsonBody d) \<Rightarrow>
          (case responseStatus_type d of
             Inl e \<Rightarrow> Inl e
           | Inr ty \<Rightarrow>
               if ty = JStr ''MFA_CODE_INVALID''
               then Inl (MfaCodeInvalidError
                      (js_String (js_or (responseStatus_message d) (JStr ''Invalid MFA code.''))))
               else if ty = JStr ''SESSION_EXPIRED''
               then Inl (MfaCodeInvalidError
                      (js_String (js_or (responseStatus_message d)
                         (JStr ''MFA session expired. Please login again.''))))
               else Inr d))"

text \<open>\<open>mobileMfaErrorFromResponse(responseStatus)\<close>.\<close>

definition mobileMfaErrorFromResponse :: "jsval \<Rightarrow> exn" where
  "mobileMfaErrorFromResponse rs =
     (let ty = coalesce (get_opt rs ''type'') (JStr []); msg = get_opt rs ''message'' in
      if ty = JStr ''SESSION_EXPIRED''
      then MfaCodeInvalidError (js_String (js_or msg (JStr ''MFA session expired. Please login again.'')))
      else if ty = JStr ''MFA_CODE_INVALID''
      then MfaCodeInvalidError (js_String (js_or msg (JStr ''Invalid MFA code.'')))
      else MfaCodeInvalidError (js_String (js_or msg
             (JStr ''MFA not accepted or session expired. Please login again.''))))"

text \<open>The MFA method of the pending state, from \<open>customerMfaInfo\<close>.\<close>

definition mfa_method_of :: "jsval \<Rightarrow> exn + mfa_method" where
  "mfa_method_of d =
     (let info = get_opt d ''customerMfaInfo'' in
      case js_or (get_opt info ''mfaLastMethodUsed'')
             (js_or (get_opt info ''defaultMfaMethod'') (JStr ''email'')) of
        JStr s \<Rightarrow>
          Inr (if toLowerCase s = ''sms'' then sms_method
               else if toLowerCase s = ''phone'' then phone_method else email_method)
      | other \<Rightarrow> Inl (TypeError ''toLowerCase is not a function''))"

text \<open>\<open>getTicketViaMobileApi(config, options)\<close>.\<close>

definition getTicketViaMobileApi ::
  "mobile_world \<Rightarrow> GarminConfig \<Rightarrow> LoginOptions \<Rightarrow> exn + ticket_result" where
  "getTicketViaMobileApi w config options =
     (if \<not> present (trimmed (email config)) \<or> \<not> present (password config)
      then Inl (Error ''Login requires email and password'')
      else case signin_page w of Some e \<Rightarrow> Inl e | None \<Rightarrow>
      case login_reply w of Inl e \<Rightarrow> Inl e
      | Inr TextBody \<Rightarrow> Inl (Error ''Mobile login failed'')
      | Inr (JsonBody d) \<Rightarrow>
      case responseStatus_type d of Inl e \<Rightarrow> Inl e | Inr ty \<Rightarrow>
      if ty = JStr ''INVALID_USERNAME_PASSWORD''
      then Inl (InvalidCredentialsError
             (js_String (js_or (responseStatus_message d) (JStr ''Invalid email or password.''))))
      else if truthy (get_opt d ''serviceTicketId'') then Inr (success (get_opt d ''serviceTicketId''))
      else if ty = JStr ''MFA_REQUIRED'' then
        (case mfa_method_of d of Inl e \<Rightarrow> Inl e | Inr method \<Rightarrow>
         let state = \<lparr> signinParams = [], cookies = cookie_header w,
                        state_domain = getSsoDomain (isCn config), csrf = [],
                        source = Some mobile_source, mfaMethod = Some method \<rparr>;
             code = (case mfaCode options of Some c \<Rightarrow> Some c
                     | None \<Rightarrow> trimmed (GARMIN_MFA_CODE w))
         in if returnOnMfa options then Inr (mfa_required state)
            else if \<not> present code \<and> \<not> isTTY w then Inr (mfa_required state)
            else
              (case verifyMobileMfa w
                      (case code of Some c \<Rightarrow> if c \<noteq> [] then c else trim (prompt_answer w)
                       | None \<Rightarrow> trim (prompt_answer w)) method of
                 Inl e \<Rightarrow> Inl e
               | Inr mfaResult \<Rightarrow>
                   if \<not> truthy (get_opt mfaResult ''serviceTicketId'')
                   then Inl (mobileMfaErrorFromResponse (get_opt mfaResult ''responseStatus''))
                   else Inr (success (get_opt mfaResult ''serviceTicketId''))))
      else Inl (Error (js_String (js_or (responseStatus_message d)
                  (JStr ''Unexpected login response'')))))"

text \<open>
  What \<open>login\<close> meets outside: the mobile flow's world, and the outcomes of the calls
  it awaits: \<open>getTicketViaEmbed\<close>, \<open>getOAuthConsumer\<close>, \<open>getOAuth1Token\<close> (for a
  ticket, a consumer and a login URL), and the reply to the request of \<open>exchangeOAuth2\<close>
  with the clock at its receipt.
\<close>

record auth_world =
  mobile_sso :: mobile_world
  embed_sso :: "exn + ticket_result"
  fetched_consumer :: "exn + OAuthConsumerKeys"
  preauthorized :: "jsval \<Rightarrow> OAuthConsumerKeys \<Rightarrow> string option \<Rightarrow> exn + OAuth1Token"
  exchange_reply :: "OAuth1Token \<Rightarrow> OAuthConsumerKeys \<Rightarrow> (exn + http_response) \<times> int"

text \<open>The calls \<open>login\<close> makes, in order.\<close>

datatype login_event =
    MobileFlow
  | EmbedFlow
  | GetOAuthConsumer
  | GetOAuth1Token jsval OAuthConsumerKeys
  | ExchangeOAuth2 OAuthConsumerKeys
  | SaveTokenStore

text \<open>
  The lines both branches of \<open>login\<close> share: \<open>getOAuth1Token\<close>, \<open>exchangeOAuth2\<close>,
  the session \<open>{ oauth1: { ...oauth1, domain }, oauth2, domain }\<close>, and
  \<open>if (config.tokenDir) saveTokenStore(config.tokenDir, session)\<close>.
\<close>

definition exchange_and_save ::
  "auth_world \<Rightarrow> fs \<Rightarrow> GarminConfig \<Rightarrow> string \<Rightarrow> jsval \<Rightarrow> OAuthConsumerKeys \<Rightarrow> string option
     \<Rightarrow> (exn + GarminSession) \<times> fs \<times> login_event list" where
  "exchange_and_save w fs config domain_name ticket consumer loginUrl =
     (case preauthorized w ticket consumer loginUrl of
        Inl e \<Rightarrow> (Inl e, fs, [GetOAuth1Token ticket consumer])
      | Inr token1 \<Rightarrow>
          (case exchangeOAuth2 (fst (exchange_reply w token1 consumer))
                  (snd (exchange_reply w token1 consumer)) of
             Inl e \<Rightarrow> (Inl e, fs, [GetOAuth1Token ticket consumer, ExchangeOAuth2 consumer])
           | Inr token2 \<Rightarrow>
               let session = \<lparr> oauth1 = token1\<lparr>OAuth1Token.domain := Present domain_name\<rparr>,
                                oauth2 = token2, domain = domain_name \<rparr>
               in (case (case tokenDir config of None \<Rightarrow> None
                                | Some dir \<Rightarrow> if dir \<noteq> [] then Some dir else None) of
                     None \<Rightarrow>
                       (Inr session, fs, [GetOAuth1Token ticket consumer, ExchangeOAuth2 consumer])
                   | Some dir \<Rightarrow>
                       (case saveTokenStore fs dir session of
                          (Some e, fs') \<Rightarrow>
                            (Inl e, fs', [GetOAuth1Token ticket consumer, ExchangeOAuth2 consumer,
                                          SaveTokenStore])
                        | (None, fs') \<Rightarrow>
                            (Inr session, fs', [GetOAuth1Token ticket consumer,
                                                ExchangeOAuth2 consumer, SaveTokenStore])))))"

text \<open>The body of the \<open>try\<close> block of \<open>login\<close>: the mobile flow.\<close>

definition login_mobile ::
  "auth_world \<Rightarrow> fs \<Rightarrow> GarminConfig \<Rightarrow> LoginOptions \<Rightarrow> (exn + LoginResult) \<times> fs \<times> login_event list" where
  "login_mobile w fs config options =
     (let domain_name = (if isCn config = Some True then ''garmin.cn'' else ''garmin.com'') in
      case getTicketViaMobileApi (mobile_sso w) config options of
        Inl e \<Rightarrow> (Inl e, fs, [MobileFlow])
      | Inr (mfa_required state) \<Rightarrow> (Inr (needsMfa state), fs, [MobileFlow])
      | Inr (success ticket) \<Rightarrow>
          (case exchange_and_save w fs config domain_name ticket MOBILE_OAUTH_CONSUMER
                  (Some (getMobileServiceUrl domain_name)) of
             (Inl e, fs', evs) \<Rightarrow> (Inl e, fs', MobileFlow # evs)
           | (Inr session, fs', evs) \<Rightarrow> (Inr (session_result session), fs', MobileFlow # evs)))"

text \<open>What follows the \<open>try\<close> block: the embed flow.\<close>

definition login_embed ::
  "auth_world \<Rightarrow> fs \<Rightarrow> GarminConfig \<Rightarrow> LoginOptions \<Rightarrow> (exn + LoginResult) \<times> fs \<times> login_event list" where
  "login_embed w fs config options =
     (let domain_name = (if isCn config = Some True then ''garmin.cn'' else ''garmin.com'') in
      case embed_sso w of
        Inl e \<Rightarrow> (Inl e, fs, [EmbedFlow])
      | Inr (mfa_required state) \<Rightarrow> (Inr (needsMfa state), fs, [EmbedFlow])
      | Inr (success ticket) \<Rightarrow>
          (case fetched_consumer w of
             Inl e \<Rightarrow> (Inl e, fs, [EmbedFlow, GetOAuthConsumer])
           | Inr consumer \<Rightarrow>
               (case exchange_and_save w fs config domain_name ticket consumer None of
                  (Inl e, fs', evs) \<Rightarrow> (Inl e, fs', EmbedFlow # GetOAuthConsumer # evs)
                | (Inr session, fs', evs) \<Rightarrow>
                    (Inr (session_result session), fs', EmbedFlow # GetOAuthConsumer # evs))))"

text \<open>
  \<open>login(config, options)\<close>. The \<open>catch\<close> of the mobile branch rethrows for the
  strategy \<open>mobile\<close> and otherwise only logs, so that control falls through to the
  embed flow.
\<close>

definition login ::
  "auth_world \<Rightarrow> fs \<Rightarrow> GarminConfig \<Rightarrow> LoginOptions \<Rightarrow> (exn + LoginResult) \<times> fs \<times> login_event list" where
  "login w fs config options =
     (if \<not> present (trimmed (email config)) \<or> \<not> present (password config)
      then (Inl (AuthError ''Authentication required. Run: garmin login''), fs, [])
      else
        let strategy = (case authStrategy config of None \<Rightarrow> auto | Some s \<Rightarrow> s) in
        if strategy = mobile \<or> strategy = auto then
          (case login_mobile w fs config options of
             (Inr result, fs', evs) \<Rightarrow> (Inr result, fs', evs)
           | (Inl err, fs', evs) \<Rightarrow>
               if strategy = mobile then (Inl err, fs', evs)
               else (case login_embed w fs' config options of
                       (r, fs'', evs') \<Rightarrow> (r, fs'', evs @ evs')))
        else login_embed w fs config options)"

section \<open>Single-flight refresh (client.ts, \<open>refreshSession\<close>)\<close>

text \<open>
  JavaScript runs one piece of code at a time: a call of the async function
  \<open>refreshSession\<close> runs without interruption up to its \<open>await\<close>, and what follows the
  \<open>await\<close> runs, again without interruption, some time after the awaited promise has
  settled. Concurrent callers are therefore an interleaving of three kinds of step:
  a caller enters \<open>refreshSession\<close>; the promise of a \<open>refreshOAuth2\<close> call settles
  (the network's step); a caller resumes after its \<open>await\<close>.

  The client's state: its session, its \<open>refreshPromise\<close> (a promise is named by its
  index in the list of promises), one promise for every call of \<open>refreshOAuth2\<close> made
  so far, and where each caller stands.
\<close>

datatype promise_state = Pending | Fulfilled GarminSession | Rejected exn

datatype caller = Idle | Joined nat | Owning nat | Returned | Raised exn

record GarminClient =
  session :: GarminSession
  refreshPromise :: "nat option"
  promises :: "promise_state list"
  callers :: "nat \<Rightarrow> caller"

datatype action = Call nat | Settle nat "exn + GarminSession" | Resume nat

text \<open>
  \<open>refreshSession\<close> up to its \<open>await\<close>: with a \<open>refreshPromise\<close> the caller awaits
  it; without, it calls \<open>refreshOAuth2\<close>, stores the promise and awaits it.
\<close>

definition enter :: "nat \<Rightarrow> GarminClient \<Rightarrow> GarminClient" where
  "enter t c =
     (case refreshPromise c of
        Some p \<Rightarrow> c\<lparr> callers := (callers c)(t := Joined p) \<rparr>
      | None \<Rightarrow>
          c\<lparr> promises := promises c @ [Pending],
             refreshPromise := Some (length (promises c)),
             callers := (callers c)(t := Owning (length (promises c))) \<rparr>)"

text \<open>
  \<open>refreshSession\<close> after its \<open>await\<close>, for the promise's value: the joining caller
  takes the session (or the rejection is thrown); the caller that made the call does
  the same and, in its \<open>finally\<close>, clears \<open>refreshPromise\<close>.
\<close>

definition resume_joined :: "nat \<Rightarrow> promise_state \<Rightarrow> GarminClient \<Rightarrow> GarminClient" where
  "resume_joined t v c =
     (case v of
        Pending \<Rightarrow> c
      | Fulfilled s \<Rightarrow> c\<lparr> session := s, callers := (callers c)(t := Returned) \<rparr>
      | Rejected e \<Rightarrow> c\<lparr> callers := (callers c)(t := Raised e) \<rparr>)"

definition resume_owning :: "nat \<Rightarrow> promise_state \<Rightarrow> GarminClient \<Rightarrow> GarminClient" where
  "resume_owning t v c =
     (case v of
        Pending \<Rightarrow> c
      | Fulfilled s \<Rightarrow>
          c\<lparr> session := s, refreshPromise := None, callers := (callers c)(t := Returned) \<rparr>
      | Rejected e \<Rightarrow> c\<lparr> refreshPromise := None, callers := (callers c)(t := Raised e) \<rparr>)"

text \<open>One step; a step that is not possible in the state leaves it as it is.\<close>

fun step :: "action \<Rightarrow> GarminClient \<Rightarrow> GarminClient" where
  "step (Call t) c = (if callers c t = Idle then enter t c else c)"
| "step (Settle p out) c =
     (if p < length (promises c) \<and> promises c ! p = Pending
      then c\<lparr> promises := (promises c)[p := (case out of Inl e \<Rightarrow> Rejected e | Inr s \<Rightarrow> Fulfilled s)] \<rparr>
      else c)"
| "step (Resume t) c =
     (case callers c t of
        Joined p \<Rightarrow> if p < length (promises c) then resume_joined t (promises c ! p) c else c
      | Owning p \<Rightarrow> if p < length (promises c) then resume_owning t (promises c ! p) c else c
      | other \<Rightarrow> c)"

fun run :: "action list \<Rightarrow> GarminClient \<Rightarrow> GarminClient" where
  "run [] c = c"
| "run (a # as) c = run as (step a c)"

definition new_client :: "GarminSession \<Rightarrow> GarminClient" where
  "new_client s = \<lparr> session = s, refreshPromise = None, promises = [], callers = (\<lambda>t. Idle) \<rparr>"

fun is_Call :: "action \<Rightarrow> bool" where
  "is_Call (Call t) = True"
| "is_Call a = False"

text \<open>
  A caller stands well with the one promise 0: it has not called, or it awaits promise
  0, or it has returned and promise 0 was fulfilled with the client's session, or it
  has thrown the error promise 0 was rejected with.
\<close>

fun shares_refresh :: "GarminClient \<Rightarrow> caller \<Rightarrow> bool" where
  "shares_refresh c Idle = True"
| "shares_refresh c (Joined p) = (p = 0)"
| "shares_refresh c (Owning p) = (p = 0)"
| "shares_refresh c Returned = (promises c = [Fulfilled (session c)])"
| "shares_refresh c (Raised e) = (promises c = [Rejected e])"

text \<open>
  While the caller \<open>t0\<close> that made the call has not resumed: promise 0 is the
  client's \<open>refreshPromise\<close>, and \<open>t0\<close> alone made a call of \<open>refreshOAuth2\<close>.
\<close>

definition in_flight :: "nat \<Rightarrow> GarminClient \<Rightarrow> bool" where
  "in_flight t0 c \<longleftrightarrow>
     refreshPromise c = Some 0 \<and> length (promises c) = 1 \<and> callers c t0 = Owning 0
     \<and> (\<forall>t. shares_refresh c (callers c t))
     \<and> (\<forall>t p. callers c t = Owning p \<longrightarrow> t = t0)"

text \<open>One call of \<open>refreshOAuth2\<close> was made, and every caller stands well with it.\<close>

definition one_refresh :: "GarminClient \<Rightarrow> bool" where
  "one_refresh c \<longleftrightarrow> length (promises c) = 1 \<and> (\<forall>t. shares_refresh c (callers c t))"

section \<open>HMAC-SHA1 and Base64 (node:crypto)\<close>





















section \<open>Signed requests (oauth1.ts)\<close>








record OAuth1Params =
  consumerKey :: string
  consumerSecret :: string
  token :: "string option"
  tokenSecret :: "string option"













section \<open>Concrete inputs\<close>

definition boundary_token :: OAuth2Token where
  "boundary_token = \<lparr> scope = ''s'', jti = ''j'', token_type = ''Bearer'',
     access_token = ''x'', refresh_token = ''y'', expires_in = 3600, expires_at = 1000,
     refresh_token_expires_in = 86400, refresh_token_expires_at = 90000 \<rparr>"

definition example_oauth1 :: OAuth1Token where
  "example_oauth1 = \<lparr> oauth_token = ''oauth1-token'', oauth_token_secret = ''oauth1-secret'',
     mfa_token = Present ''mfa'', mfa_expiration_timestamp = Absent,
     OAuth1Token.domain = Present ''garmin.com'' \<rparr>"

definition example_oauth2 :: OAuth2Token where
  "example_oauth2 = \<lparr> scope = ''scope'', jti = ''jti'', token_type = ''Bearer'',
     access_token = ''access'', refresh_token = ''refresh'', expires_in = 3600,
     expires_at = 1700003600, refresh_token_expires_in = 86400,
     refresh_token_expires_at = 1700086400 \<rparr>"

definition example_session :: GarminSession where
  "example_session = \<lparr> oauth1 = example_oauth1, oauth2 = example_oauth2, domain = ''garmin.com'' \<rparr>"



definition corrupt_fs :: fs where
  "corrupt_fs = Map.empty
     (''/tokens'' \<mapsto> Directory,
      ''/tokens/oauth1_token.json'' \<mapsto> File NotJson,
      ''/tokens/oauth2_token.json'' \<mapsto> File (Json (js_of_oauth2 boundary_token)))"


definition exchange_response :: http_response where
  "exchange_response = \<lparr> status = 200, data = JObj
     [(''scope'', JStr ''CONNECT_READ''), (''jti'', JStr ''abc''),
      (''token_type'', JStr ''Bearer''), (''access_token'', JStr ''at''),
      (''refresh_token'', JStr ''rt''), (''expires_in'', JNum 3600),
      (''refresh_token_expires_in'', JNum 7200)] \<rparr>"

definition exchanged_token :: OAuth2Token where
  "exchanged_token = \<lparr>scope = ''CONNECT_READ'', jti = ''abc'', token_type = ''Bearer'',
     access_token = ''at'', refresh_token = ''rt'', expires_in = 3600, expires_at = 1700003600,
     refresh_token_expires_in = 7200, refresh_token_expires_at = 1700007200\<rparr>"

text \<open>The error axios rejects with for a response whose status it does not accept.\<close>

definition http_error :: "int \<Rightarrow> exn" where
  "http_error st = AxiosError (Some st)
     (if st < 500 then ''ERR_BAD_REQUEST'' else ''ERR_BAD_RESPONSE'')
     (''Request failed with status code '' @ string_of_int st)"

definition script :: "'a list \<Rightarrow> 'a \<Rightarrow> nat \<Rightarrow> 'a" where
  "script xs d i = (if i < length xs then xs ! i else d)"

definition ok_response :: http_response where
  "ok_response = \<lparr> status = 200, data = JObj [] \<rparr>"

definition world_503 :: world where
  "world_503 = \<lparr> responses = (\<lambda>i. Inl (http_error 503)), refresh_results = (\<lambda>i. None) \<rparr>"

definition world_503_404 :: world where
  "world_503_404 = \<lparr> responses = script [Inl (http_error 503), Inl (http_error 404)] (Inr ok_response),
      refresh_results = (\<lambda>i. None) \<rparr>"



definition world_resolved_503 :: world where
  "world_resolved_503 = \<lparr> responses = (\<lambda>i. Inr \<lparr> status = 503, data = JStr ''unavailable'' \<rparr>),
      refresh_results = (\<lambda>i. None) \<rparr>"



definition auto_config :: GarminConfig where
  "auto_config = \<lparr> email = Some ''user@example.com'', password = Some ''secret'',
     tokenDir = None, isCn = None, authStrategy = Some auto \<rparr>"

definition default_options :: LoginOptions where
  "default_options = \<lparr> returnOnMfa = False, mfaCode = None \<rparr>"

definition code_options :: LoginOptions where
  "code_options = \<lparr> returnOnMfa = False, mfaCode = Some ''123456'' \<rparr>"

text \<open>The mobile login endpoint answers that the password is wrong.\<close>

definition bad_password_mobile :: mobile_world where
  "bad_password_mobile = \<lparr> signin_page = None,
     login_reply = Inr (JsonBody (JObj [(''responseStatus'',
        JObj [(''type'', JStr ''INVALID_USERNAME_PASSWORD'')])])),
     verify_reply = (\<lambda>code method. Inl (Error ''not reached'')),
     cookie_header = ''SESSION=1'', GARMIN_MFA_CODE = None, isTTY = False,
     prompt_answer = [] \<rparr>"

text \<open>The mobile flow asks for a second factor and rejects the code.\<close>

definition bad_code_mobile :: mobile_world where
  "bad_code_mobile = \<lparr> signin_page = None,
     login_reply = Inr (JsonBody (JObj
       [(''responseStatus'', JObj [(''type'', JStr ''MFA_REQUIRED'')]),
        (''customerMfaInfo'', JObj [(''defaultMfaMethod'', JStr ''sms'')])])),
     verify_reply = (\<lambda>code method. Inr (JsonBody (JObj [(''responseStatus'',
        JObj [(''type'', JStr ''MFA_CODE_INVALID'')])]))),
     cookie_header = ''SESSION=1'', GARMIN_MFA_CODE = None, isTTY = False,
     prompt_answer = [] \<rparr>"

definition embed_consumer :: OAuthConsumerKeys where
  "embed_consumer = \<lparr> consumer_key = ''ck'', consumer_secret = ''cs'' \<rparr>"

definition preauthorized_token :: OAuth1Token where
  "preauthorized_token = \<lparr> oauth_token = ''oauth1-token'', oauth_token_secret = ''oauth1-secret'',
     mfa_token = Absent, mfa_expiration_timestamp = Absent,
     OAuth1Token.domain = Present ''garmin.com'' \<rparr>"

text \<open>A world in which the embed flow and the credential exchange succeed.\<close>

definition embed_succeeds :: "mobile_world \<Rightarrow> auth_world" where
  "embed_succeeds m = \<lparr> mobile_sso = m,
     embed_sso = Inr (success (JStr ''ST-embed'')),
     fetched_consumer = Inr embed_consumer,
     preauthorized = (\<lambda>ticket consumer loginUrl. Inr preauthorized_token),
     exchange_reply = (\<lambda>token1 consumer. (Inr exchange_response, 1700000000123)) \<rparr>"

definition embed_session :: GarminSession where
  "embed_session = \<lparr> oauth1 = preauthorized_token, oauth2 = exchanged_token, domain = ''garmin.com'' \<rparr>"



definition mobile_config :: GarminConfig where
  "mobile_config = auto_config \<lparr> authStrategy := Some mobile \<rparr>"

definition refreshed_session :: GarminSession where
  "refreshed_session = example_session \<lparr> oauth2 := exchanged_token \<rparr>"

text \<open>
  Three callers: 0 enters first, 1 and 2 enter while its refresh is in flight; the
  exchange succeeds; 1 resumes before 0 does, 2 after.
\<close>

definition wave_in_flight :: "action list" where
  "wave_in_flight = [Call 1, Call 2, Settle 0 (Inr refreshed_session), Resume 1]"

definition wave_rest :: "action list" where
  "wave_rest = [Resume 0, Resume 2]"




section \<open>Expiry check: \<open>isOAuth2Expired\<close>\<close>

text \<open>
  C2, as stated, fails at the boundary: with \<open>expires_at = 1000\<close>, a margin of 60 and the
  clock at second 940 (\<open>= expires_at - margin\<close>), the claim asks for \<open>true\<close> and the
  strict comparison of the code gives \<open>false\<close>.
\<close>

theorem C2_boundary_counterexample:
  "unix_seconds 940000 = expires_at boundary_token - 60
   \<and> unix_seconds 940000 \<ge> expires_at boundary_token - 60
   \<and> \<not> isOAuth2Expired 940000 boundary_token 60"
  by (simp add: isOAuth2Expired_def unix_seconds_def boundary_token_def)

text \<open>
  C2, amended: \<open>isOAuth2Expired(token, margin)\<close> is true if and only if the current time
  in Unix seconds is strictly greater than \<open>expires_at - margin\<close>; the default margin is
  60 seconds.
\<close>

theorem C2_isOAuth2Expired_strict:
  "(isOAuth2Expired now_ms tok margin \<longleftrightarrow> unix_seconds now_ms > expires_at tok - margin)
   \<and> (isOAuth2Expired_default now_ms tok \<longleftrightarrow> unix_seconds now_ms > expires_at tok - 60)"
  by (simp add: isOAuth2Expired_def isOAuth2Expired_default_def)

theorem C2_isOAuth2Expired_strict_witness:
  "\<not> isOAuth2Expired 940000 boundary_token 60 \<and> isOAuth2Expired 941000 boundary_token 60
   \<and> isOAuth2Expired_default 941999 boundary_token"
  using C2_isOAuth2Expired_strict [of 940000 boundary_token 60]
    C2_isOAuth2Expired_strict [of 941000 boundary_token 60]
    C2_isOAuth2Expired_strict [of 941999 boundary_token 60]
  by (simp add: unix_seconds_def boundary_token_def)

section \<open>Token store: loading\<close>

lemma path_join_neq_dir [simp]: "path_join dir name \<noteq> dir"
  by (simp add: path_join_def)

lemma path_join_inject [simp]: "path_join dir a = path_join dir b \<longleftrightarrow> a = b"
  by (simp add: path_join_def)

lemma get_prop_Inr_get_opt: "get_prop v k = Inr w \<Longrightarrow> get_opt v k = w"
  by (simp add: get_opt_def)

lemma loadTokenStore_try_Some:
  assumes "fs p1 = Some (File (Json o1))" "fs p2 = Some (File (Json o2))"
    "truthy (get_opt o1 ''oauth_token'')" "truthy (get_opt o1 ''oauth_token_secret'')"
    "truthy (get_opt o2 ''access_token'')"
  shows "loadTokenStore_try fs p1 p2 cn =
     Inr (Some \<lparr> loaded_oauth1 = JObj (set_prop (spread o1) ''domain''
                      (coalesce (get_opt o1 ''domain'') (JStr (getSsoDomain cn)))),
                  loaded_oauth2 = o2,
                  loaded_domain = coalesce (get_opt o1 ''domain'') (JStr (getSsoDomain cn)) \<rparr>)"
proof -
  obtain ps1 where o1: "o1 = JObj ps1" using assms(3) by (cases o1) (auto simp: get_opt_def)
  obtain ps2 where o2: "o2 = JObj ps2" using assms(5) by (cases o2) (auto simp: get_opt_def)
  show ?thesis using assms
    by (simp add: loadTokenStore_try_def readFileSync_def JSON_parse_def o1 o2 get_opt_def Let_def)
qed

lemma loadTokenStore_try_Some_only:
  assumes "loadTokenStore_try fs p1 p2 cn = Inr (Some s)"
  shows "\<exists>o1 o2. fs p1 = Some (File (Json o1)) \<and> fs p2 = Some (File (Json o2))
     \<and> truthy (get_opt o1 ''oauth_token'') \<and> truthy (get_opt o1 ''oauth_token_secret'')
     \<and> truthy (get_opt o2 ''access_token'')"
  using assms
  by (auto simp: loadTokenStore_try_def readFileSync_def JSON_parse_def Let_def get_prop_Inr_get_opt
      split: sum.splits option.splits node.splits file_content.splits if_splits)

lemma loadTokenStore_total: "\<exists>r. loadTokenStore fs dir cn = Inr r"
  by (simp add: loadTokenStore_def Let_def split: sum.splits)

lemma loadTokenStore_Some_iff:
  "(\<exists>s. loadTokenStore fs dir cn = Inr (Some s)) \<longleftrightarrow>
     (\<exists>o1 o2. fs (path_join dir ''oauth1_token.json'') = Some (File (Json o1))
        \<and> fs (path_join dir ''oauth2_token.json'') = Some (File (Json o2))
        \<and> required_fields_present o1 o2)"
proof
  assume "\<exists>s. loadTokenStore fs dir cn = Inr (Some s)"
  then obtain s where "loadTokenStore fs dir cn = Inr (Some s)" ..
  then have "loadTokenStore_try fs (path_join dir ''oauth1_token.json'')
      (path_join dir ''oauth2_token.json'') cn = Inr (Some s)"
    by (auto simp: loadTokenStore_def Let_def split: if_splits sum.splits)
  from loadTokenStore_try_Some_only [OF this]
  show "\<exists>o1 o2. fs (path_join dir ''oauth1_token.json'') = Some (File (Json o1))
        \<and> fs (path_join dir ''oauth2_token.json'') = Some (File (Json o2))
        \<and> required_fields_present o1 o2"
    by (auto simp: required_fields_present_def)
next
  assume "\<exists>o1 o2. fs (path_join dir ''oauth1_token.json'') = Some (File (Json o1))
        \<and> fs (path_join dir ''oauth2_token.json'') = Some (File (Json o2))
        \<and> required_fields_present o1 o2"
  then obtain o1 o2 where h: "fs (path_join dir ''oauth1_token.json'') = Some (File (Json o1))"
     "fs (path_join dir ''oauth2_token.json'') = Some (File (Json o2))"
     "required_fields_present o1 o2" by blast
  from loadTokenStore_try_Some [where fs=fs and ?o1.0=o1 and ?o2.0=o2 and cn=cn, OF h(1) h(2)] h(3)
  show "\<exists>s. loadTokenStore fs dir cn = Inr (Some s)"
    by (simp add: loadTokenStore_def Let_def existsSync_def h(1) h(2) required_fields_present_def)
qed

lemma loadTokenStore_None:
  assumes "\<not> (\<exists>o1 o2. fs (path_join dir ''oauth1_token.json'') = Some (File (Json o1))
        \<and> fs (path_join dir ''oauth2_token.json'') = Some (File (Json o2))
        \<and> required_fields_present o1 o2)"
  shows "loadTokenStore fs dir cn = Inr None"
proof -
  obtain r where r: "loadTokenStore fs dir cn = Inr r"
    using loadTokenStore_total by blast
  have "r = None"
  proof (cases r)
    case (Some s)
    with r loadTokenStore_Some_iff [of fs dir cn] assms show ?thesis by blast
  qed simp
  with r show ?thesis by simp
qed

text \<open>
  C4: \<open>loadTokenStore\<close> never lets an exception out (its result is always an \<open>Inr\<close>),
  and it returns \<open>null\<close> when a credential file is missing, when reading one fails,
  when one is not valid JSON, and when the values lack one of the required fields.
\<close>

theorem C4_loadTokenStore_never_raises:
  "(\<exists>r. loadTokenStore fs dir cn = Inr r)
   \<and> (fs (path_join dir ''oauth1_token.json'') = None \<or> fs (path_join dir ''oauth2_token.json'') = None
        \<longrightarrow> loadTokenStore fs dir cn = Inr None)
   \<and> ((\<exists>e. readFileSync fs (path_join dir ''oauth1_token.json'') = Inl e)
        \<or> (\<exists>e. readFileSync fs (path_join dir ''oauth2_token.json'') = Inl e)
        \<longrightarrow> loadTokenStore fs dir cn = Inr None)
   \<and> (fs (path_join dir ''oauth1_token.json'') = Some (File NotJson)
        \<or> fs (path_join dir ''oauth2_token.json'') = Some (File NotJson)
        \<longrightarrow> loadTokenStore fs dir cn = Inr None)
   \<and> (\<forall>o1 o2. fs (path_join dir ''oauth1_token.json'') = Some (File (Json o1))
        \<and> fs (path_join dir ''oauth2_token.json'') = Some (File (Json o2))
        \<and> \<not> required_fields_present o1 o2
        \<longrightarrow> loadTokenStore fs dir cn = Inr None)"
proof (intro conjI impI allI)
  show "\<exists>r. loadTokenStore fs dir cn = Inr r" by (rule loadTokenStore_total)
next
  assume "fs (path_join dir ''oauth1_token.json'') = None \<or> fs (path_join dir ''oauth2_token.json'') = None"
  then show "loadTokenStore fs dir cn = Inr None"
    by (intro loadTokenStore_None) auto
next
  assume "(\<exists>e. readFileSync fs (path_join dir ''oauth1_token.json'') = Inl e)
        \<or> (\<exists>e. readFileSync fs (path_join dir ''oauth2_token.json'') = Inl e)"
  then show "loadTokenStore fs dir cn = Inr None"
    by (intro loadTokenStore_None) (auto simp: readFileSync_def)
next
  assume "fs (path_join dir ''oauth1_token.json'') = Some (File NotJson)
        \<or> fs (path_join dir ''oauth2_token.json'') = Some (File NotJson)"
  then show "loadTokenStore fs dir cn = Inr None"
    by (intro loadTokenStore_None) auto
next
  fix o1 o2
  assume "fs (path_join dir ''oauth1_token.json'') = Some (File (Json o1))
        \<and> fs (path_join dir ''oauth2_token.json'') = Some (File (Json o2))
        \<and> \<not> required_fields_present o1 o2"
  then show "loadTokenStore fs dir cn = Inr None"
    by (intro loadTokenStore_None) auto
qed

theorem C4_loadTokenStore_never_raises_witness:
  "corrupt_fs (path_join ''/tokens'' ''oauth1_token.json'') = Some (File NotJson)
   \<and> loadTokenStore corrupt_fs ''/tokens'' None = Inr None
   \<and> loadTokenStore Map.empty ''/tokens'' None = Inr None"
  using C4_loadTokenStore_never_raises [of corrupt_fs "''/tokens''" None]
    C4_loadTokenStore_never_raises [of Map.empty "''/tokens''" None]
  by (simp add: corrupt_fs_def path_join_def)



section \<open>Token store: saving, then loading\<close>
















section \<open>Credential exchange: absolute expiries\<close>


text \<open>
  \<open>exchangeOAuth2\<close> returns a credential exactly when the request resolved with a status
  below 400 and a body that is not \<open>null\<close> or \<open>undefined\<close>.
\<close>

lemma exchangeOAuth2_returns:
  "(\<exists>tok. exchangeOAuth2 res now_ms = Inr tok) \<longleftrightarrow>
     (\<exists>r. res = Inr r \<and> status r < 400 \<and> \<not> nullish (data r))"
  by (cases res; cases "data (projr res)")
     (auto simp: exchangeOAuth2_def Let_def split: sum.splits)



section \<open>Authenticated request client: retries\<close>

lemma requests_append [simp]: "requests (tr @ tr') = requests tr + requests tr'"
  by (simp add: requests_def)

lemma refreshes_append [simp]: "refreshes (tr @ tr') = refreshes tr + refreshes tr'"
  by (simp add: refreshes_def)

lemma requests_simps [simp]:
  "requests [] = 0"
  "requests (Request # tr) = Suc (requests tr)"
  "requests (Refresh # tr) = requests tr"
  "requests (Sleep ms # tr) = requests tr"
  by (simp_all add: requests_def)

lemma refreshes_simps [simp]:
  "refreshes [] = 0"
  "refreshes (Request # tr) = refreshes tr"
  "refreshes (Refresh # tr) = Suc (refreshes tr)"
  "refreshes (Sleep ms # tr) = refreshes tr"
  by (simp_all add: refreshes_def)

lemma gateway_retries_trace_simps [simp]:
  "gateway_retries_trace 0 = []"
  "gateway_retries_trace (Suc n) = Sleep 5000 # Request # gateway_retries_trace n"
  by (simp_all add: gateway_retries_trace_def)

lemma connection_retries_trace_simps [simp]:
  "connection_retries_trace 0 = []"
  "connection_retries_trace (Suc k) = Request # Sleep 1000 # connection_retries_trace k"
  by (simp_all add: connection_retries_trace_def)

lemma requests_gateway_retries_trace [simp]: "requests (gateway_retries_trace n) = n"
  by (induction n) simp_all

lemma refreshes_gateway_retries_trace [simp]: "refreshes (gateway_retries_trace n) = 0"
  by (induction n) simp_all

lemma requests_connection_retries_trace [simp]: "requests (connection_retries_trace k) = k"
  by (induction k) simp_all

lemma refreshes_connection_retries_trace [simp]: "refreshes (connection_retries_trace k) = 0"
  by (induction k) simp_all

lemma gateway_errorE:
  assumes "gateway_error e"
  obtains st c m where "e = AxiosError (Some st) c m" "isRetryableGatewayStatus st"
  using assms by (cases e rule: gateway_error.cases) auto

lemma other_status_errorE:
  assumes "other_status_error e"
  obtains st c m where "e = AxiosError (Some st) c m" "\<not> isRetryableGatewayStatus st"
  using assms by (cases e rule: other_status_error.cases) auto

lemma gateway_rejectionE:
  assumes "gateway_rejection r"
  obtains st c m where "r = Inl (AxiosError (Some st) c m)" "isRetryableGatewayStatus st"
    "\<not> isRetryableNetworkError (AxiosError (Some st) c m)"
  using assms by (auto simp: gateway_rejection_def split: sum.splits elim: gateway_errorE)

lemma gateway_responseE:
  assumes "gateway_response r"
  obtains res where "r = Inr res" "isRetryableGatewayStatus (status res)"
  using assms by (auto simp: gateway_response_def split: sum.splits)

lemma gateway_status_ge_400: "isRetryableGatewayStatus st \<Longrightarrow> \<not> st < 400"
  by (auto simp: isRetryableGatewayStatus_def)

lemma gateway_not_401: "isRetryableGatewayStatus st \<Longrightarrow> st \<noteq> 401"
  by (auto simp: isRetryableGatewayStatus_def)

lemma shift_responses:
  assumes "\<forall>i<Suc n. P (responses w (requests tr + i))"
  shows "\<forall>i<n. P (responses w (requests (tr @ [Sleep 5000, Request]) + i))"
proof (intro allI impI)
  fix i assume "i < n"
  then have "Suc i < Suc n" by simp
  with assms have "P (responses w (requests tr + Suc i))" by blast
  then show "P (responses w (requests (tr @ [Sleep 5000, Request]) + i))" by simp
qed

lemma gateway_retry_thrown_all:
  assumes "\<forall>i<n. gateway_rejection (responses w (requests tr + i))"
  shows "gateway_retry_thrown w n err tr = (Throw err, tr @ gateway_retries_trace n)"
  using assms
proof (induction n arbitrary: tr)
  case 0
  then show ?case by simp
next
  case (Suc n)
  from Suc.prems have "gateway_rejection (responses w (requests tr))" by force
  then obtain st c m where e: "responses w (requests tr) = Inl (AxiosError (Some st) c m)"
      "isRetryableGatewayStatus st"
    by (rule gateway_rejectionE)
  from Suc.IH [OF shift_responses [OF Suc.prems]] e show ?case
    by (simp add: doRequest_def)
qed

lemma gateway_retry_thrown_stop:
  assumes "k < n"
    and "\<forall>i<k. gateway_rejection (responses w (requests tr + i))"
    and "responses w (requests tr + k) = Inl e'" and "other_status_error e'"
  shows "gateway_retry_thrown w n err tr = (Throw e', tr @ gateway_retries_trace (Suc k))"
  using assms
proof (induction k arbitrary: tr n)
  case 0
  then obtain n' where n: "n = Suc n'" by (cases n) auto
  from \<open>other_status_error e'\<close> obtain st c m where "e' = AxiosError (Some st) c m"
      "\<not> isRetryableGatewayStatus st"
    by (rule other_status_errorE)
  with 0 show ?case
    by (simp add: n doRequest_def)
next
  case (Suc k)
  then obtain n' where n: "n = Suc n'" by (cases n) auto
  from Suc.prems(2) have "gateway_rejection (responses w (requests tr))" by force
  then obtain st c m where e: "responses w (requests tr) = Inl (AxiosError (Some st) c m)"
      "isRetryableGatewayStatus st"
    by (rule gateway_rejectionE)
  have a: "k < n'" using Suc.prems n by simp
  have c: "responses w (requests (tr @ [Sleep 5000, Request]) + k) = Inl e'"
    using Suc.prems by simp
  from Suc.IH [OF a shift_responses [OF Suc.prems(2)] c Suc.prems(4)] e show ?case
    by (simp add: n doRequest_def)
qed

lemma gateway_retry_resolved_all:
  assumes "\<forall>i<n. gateway_response (responses w (requests tr + i))"
  shows "gateway_retry_resolved w n res tr =
           (Return (if n = 0 then Inr res else responses w (requests tr + n - 1)),
            tr @ gateway_retries_trace n)"
  using assms
proof (induction n arbitrary: tr res)
  case 0
  then show ?case by simp
next
  case (Suc n)
  from Suc.prems have "gateway_response (responses w (requests tr))" by force
  then obtain r where r: "responses w (requests tr) = Inr r" "isRetryableGatewayStatus (status r)"
    by (rule gateway_responseE)
  from Suc.IH [OF shift_responses [OF Suc.prems], of r] r show ?case
    by (auto simp: doRequest_def gateway_status_ge_400)
qed

lemma gateway_retry_resolved_stop:
  assumes "k < n"
    and "\<forall>i<k. gateway_response (responses w (requests tr + i))"
    and "responses w (requests tr + k) = Inr r'" and "\<not> isRetryableGatewayStatus (status r')"
  shows "gateway_retry_resolved w n res tr = (Return (Inr r'), tr @ gateway_retries_trace (Suc k))"
  using assms
proof (induction k arbitrary: tr n res)
  case 0
  then obtain n' where n: "n = Suc n'" by (cases n) auto
  from 0 show ?case
    by (simp add: n doRequest_def)
next
  case (Suc k)
  then obtain n' where n: "n = Suc n'" by (cases n) auto
  from Suc.prems(2) have "gateway_response (responses w (requests tr))" by force
  then obtain r where r: "responses w (requests tr) = Inr r" "isRetryableGatewayStatus (status r)"
    by (rule gateway_responseE)
  have a: "k < n'" using Suc.prems n by simp
  have c: "responses w (requests (tr @ [Sleep 5000, Request]) + k) = Inr r'"
    using Suc.prems by simp
  from Suc.IH [OF a shift_responses [OF Suc.prems(2)] c Suc.prems(4), of r] r show ?case
    by (simp add: n doRequest_def gateway_status_ge_400)
qed

lemma attempt_loop_Return:
  "attempt_body w gr tr = (Return r, tr') \<Longrightarrow> attempt_loop w gr k tr = (r, tr')"
  by (cases k) simp_all

lemma attempt_loop_Throw:
  "attempt_body w gr tr = (Throw e, tr') \<Longrightarrow> \<not> isRetryableNetworkError e \<Longrightarrow>
     attempt_loop w gr k tr = (Inl e, tr')"
  by (cases k) simp_all

lemma le_to_less_Suc:
  assumes "\<forall>i\<le>k. P (responses w i)"
  shows "\<forall>i<k. P (responses w (requests [Request] + i))"
  using assms by (auto simp: Suc_le_eq)

text \<open>
  C6: with \<open>gatewayRetries = gr\<close> (2 by default), when the first request and every
  retry is answered 502, 503 or 504, there are exactly \<open>gr\<close> retries after the first
  request, \<open>gr + 1\<close> requests in all, each retry after a pause of five seconds, no
  refresh, and then the failure comes out: the first error when axios rejected the
  responses, the last response when it resolved them. An answer with another error
  status during the retries comes out as it is, and no further request is made.
\<close>

theorem C6_gateway_retries:
  "((\<forall>i\<le>gr. gateway_rejection (responses w i))
      \<longrightarrow> requestWithAuthRetry w cr gr = (responses w 0, Request # gateway_retries_trace gr)
        \<and> requests (snd (requestWithAuthRetry w cr gr)) = gr + 1)
   \<and> ((\<forall>i\<le>gr. gateway_response (responses w i))
      \<longrightarrow> requestWithAuthRetry w cr gr = (responses w gr, Request # gateway_retries_trace gr)
        \<and> requests (snd (requestWithAuthRetry w cr gr)) = gr + 1)
   \<and> (\<forall>k e'. k < gr \<and> (\<forall>i\<le>k. gateway_rejection (responses w i))
        \<and> responses w (Suc k) = Inl e' \<and> other_status_error e' \<and> \<not> isRetryableNetworkError e'
      \<longrightarrow> requestWithAuthRetry w cr gr = (Inl e', Request # gateway_retries_trace (Suc k)))
   \<and> (\<forall>k r'. k < gr \<and> (\<forall>i\<le>k. gateway_response (responses w i))
        \<and> responses w (Suc k) = Inr r' \<and> \<not> isRetryableGatewayStatus (status r')
      \<longrightarrow> requestWithAuthRetry w cr gr = (Inr r', Request # gateway_retries_trace (Suc k)))"
proof (intro conjI impI allI)
  assume h: "\<forall>i\<le>gr. gateway_rejection (responses w i)"
  then have "gateway_rejection (responses w 0)" by simp
  then obtain st c m where e: "responses w 0 = Inl (AxiosError (Some st) c m)"
      "isRetryableGatewayStatus st" "\<not> isRetryableNetworkError (AxiosError (Some st) c m)"
    by (rule gateway_rejectionE)
  from gateway_retry_thrown_all [OF le_to_less_Suc [OF h], of "AxiosError (Some st) c m"] e
  have "attempt_body w gr [] = (Throw (AxiosError (Some st) c m), Request # gateway_retries_trace gr)"
    by (simp add: attempt_body_def doRequest_def gateway_not_401)
  with e(3) show r: "requestWithAuthRetry w cr gr = (responses w 0, Request # gateway_retries_trace gr)"
    by (simp add: requestWithAuthRetry_def attempt_loop_Throw e(1))
  show "requests (snd (requestWithAuthRetry w cr gr)) = gr + 1" by (simp add: r)
next
  assume h: "\<forall>i\<le>gr. gateway_response (responses w i)"
  then have "gateway_response (responses w 0)" by simp
  then obtain r0 where r0: "responses w 0 = Inr r0" "isRetryableGatewayStatus (status r0)"
    by (rule gateway_responseE)
  from gateway_retry_resolved_all [OF le_to_less_Suc [OF h], of r0] r0
  have "attempt_body w gr [] = (Return (responses w gr), Request # gateway_retries_trace gr)"
    by (auto simp: attempt_body_def doRequest_def gateway_not_401)
  then show r: "requestWithAuthRetry w cr gr = (responses w gr, Request # gateway_retries_trace gr)"
    by (simp add: requestWithAuthRetry_def attempt_loop_Return)
  show "requests (snd (requestWithAuthRetry w cr gr)) = gr + 1" by (simp add: r)
next
  fix k e'
  assume h: "k < gr \<and> (\<forall>i\<le>k. gateway_rejection (responses w i))
        \<and> responses w (Suc k) = Inl e' \<and> other_status_error e' \<and> \<not> isRetryableNetworkError e'"
  then have h1: "\<forall>i\<le>k. gateway_rejection (responses w i)" and h2: "k < gr"
    and h3: "other_status_error e'" by simp_all
  from h1 have "gateway_rejection (responses w 0)" by simp
  then obtain st c m where e: "responses w 0 = Inl (AxiosError (Some st) c m)"
      "isRetryableGatewayStatus st"
    by (rule gateway_rejectionE)
  have b: "responses w (requests [Request] + k) = Inl e'" using h by simp
  from gateway_retry_thrown_stop [OF h2 le_to_less_Suc [OF h1] b h3, of "AxiosError (Some st) c m"] e
  have "attempt_body w gr [] = (Throw e', Request # gateway_retries_trace (Suc k))"
    by (simp add: attempt_body_def doRequest_def gateway_not_401)
  with h show "requestWithAuthRetry w cr gr = (Inl e', Request # gateway_retries_trace (Suc k))"
    by (simp add: requestWithAuthRetry_def attempt_loop_Throw)
next
  fix k r'
  assume h: "k < gr \<and> (\<forall>i\<le>k. gateway_response (responses w i))
        \<and> responses w (Suc k) = Inr r' \<and> \<not> isRetryableGatewayStatus (status r')"
  then have h1: "\<forall>i\<le>k. gateway_response (responses w i)" and h2: "k < gr"
    and h3: "\<not> isRetryableGatewayStatus (status r')" by simp_all
  from h1 have "gateway_response (responses w 0)" by simp
  then obtain r0 where r0: "responses w 0 = Inr r0" "isRetryableGatewayStatus (status r0)"
    by (rule gateway_responseE)
  have b: "responses w (requests [Request] + k) = Inr r'" using h by simp
  from gateway_retry_resolved_stop [OF h2 le_to_less_Suc [OF h1] b h3, of r0] r0
  have "attempt_body w gr [] = (Return (Inr r'), Request # gateway_retries_trace (Suc k))"
    by (simp add: attempt_body_def doRequest_def gateway_not_401)
  then show "requestWithAuthRetry w cr gr = (Inr r', Request # gateway_retries_trace (Suc k))"
    by (simp add: requestWithAuthRetry_def attempt_loop_Return)
qed

lemma http_error_values:
  "http_error 503 = AxiosError (Some 503) ''ERR_BAD_RESPONSE'' ''Request failed with status code 503''"
  "http_error 404 = AxiosError (Some 404) ''ERR_BAD_REQUEST'' ''Request failed with status code 404''"
  "http_error 401 = AxiosError (Some 401) ''ERR_BAD_REQUEST'' ''Request failed with status code 401''"
  by (simp_all add: http_error_def string_of_int_def digits_of_int.simps digit_char_def)

lemma gateway_rejection_503: "gateway_rejection (Inl (http_error 503))"
  by (simp add: http_error_values gateway_rejection_def isRetryableGatewayStatus_def
      isRetryableNetworkError_def)

theorem C6_gateway_retries_witness:
  "requestWithAuthRetry world_503 2 2 =
     (Inl (http_error 503), [Request, Sleep 5000, Request, Sleep 5000, Request])
   \<and> requests (snd (requestWithAuthRetry world_503 2 2)) = 3
   \<and> requestWithAuthRetry world_503_404 2 2 =
     (Inl (http_error 404), [Request, Sleep 5000, Request])
   \<and> requestWithAuthRetry world_resolved_503 2 2 =
     (Inr \<lparr> status = 503, data = JStr ''unavailable'' \<rparr>,
      [Request, Sleep 5000, Request, Sleep 5000, Request])"
proof -
  have a: "\<forall>i\<le>2. gateway_rejection (responses world_503 i)"
    by (simp add: world_503_def gateway_rejection_503)
  have b: "(0::nat) < 2 \<and> (\<forall>i\<le>0. gateway_rejection (responses world_503_404 i))
        \<and> responses world_503_404 (Suc 0) = Inl (http_error 404)
        \<and> other_status_error (http_error 404) \<and> \<not> isRetryableNetworkError (http_error 404)"
    by (simp add: world_503_404_def script_def gateway_rejection_503 http_error_values(2)
        isRetryableGatewayStatus_def isRetryableNetworkError_def)
  have c: "\<forall>i\<le>2. gateway_response (responses world_resolved_503 i)"
    by (simp add: world_resolved_503_def gateway_response_def isRetryableGatewayStatus_def)
  have t: "gateway_retries_trace 2 = [Sleep 5000, Request, Sleep 5000, Request]"
    "gateway_retries_trace (Suc 0) = [Sleep 5000, Request]"
    by (simp_all add: numeral_2_eq_2)
  note inst = C6_gateway_retries [of 2 world_503 2] C6_gateway_retries [of 2 world_503_404 2]
    C6_gateway_retries [of 2 world_resolved_503 2]
  from inst(1) a have 1: "requestWithAuthRetry world_503 2 2 = (responses world_503 0, Request # gateway_retries_trace 2)
        \<and> requests (snd (requestWithAuthRetry world_503 2 2)) = 2 + 1" by blast
  from inst(2) b have 2: "requestWithAuthRetry world_503_404 2 2 = (Inl (http_error 404), Request # gateway_retries_trace (Suc 0))"
    by blast
  from inst(3) c have 3: "requestWithAuthRetry world_resolved_503 2 2 = (responses world_resolved_503 2, Request # gateway_retries_trace 2)"
    by blast
  from 1 2 3 show ?thesis
    by (simp add: t world_503_def world_resolved_503_def)
qed







section \<open>Login: fallback between the SSO flows\<close>

lemma EmbedFlow_in_login_embed: "EmbedFlow \<in> set (snd (snd (login_embed w fs config options)))"
  by (auto simp: login_embed_def Let_def split: sum.splits ticket_result.splits prod.splits)

lemma login_mobile_ticket_failure:
  "getTicketViaMobileApi (mobile_sso w) config options = Inl err \<Longrightarrow>
     login_mobile w fs config options = (Inl err, fs, [MobileFlow])"
  by (simp add: login_mobile_def)

lemma bad_password_mobile_fails:
  "present (trimmed (email config)) \<Longrightarrow> present (password config) \<Longrightarrow>
   getTicketViaMobileApi bad_password_mobile config options
     = Inl (InvalidCredentialsError ''Invalid email or password.'')"
  by (simp add: getTicketViaMobileApi_def bad_password_mobile_def responseStatus_type_def
      responseStatus_message_def get_opt_def js_or_def)

lemma bad_code_mobile_fails:
  "getTicketViaMobileApi bad_code_mobile auto_config code_options
     = Inl (MfaCodeInvalidError ''Invalid MFA code.'')"
  by (simp add: getTicketViaMobileApi_def bad_code_mobile_def auto_config_def code_options_def
      present_def trimmed_def trim_def is_space_def responseStatus_type_def
      responseStatus_message_def get_opt_def js_or_def mfa_method_of_def toLowerCase_def
      lower_char_def verifyMobileMfa_def Let_def)

lemma login_embed_succeeds:
  "login_embed (embed_succeeds m) fs auto_config options =
     (Inr (session_result embed_session), fs,
      [EmbedFlow, GetOAuthConsumer, GetOAuth1Token (JStr ''ST-embed'') embed_consumer,
       ExchangeOAuth2 embed_consumer])"
  by (simp add: login_embed_def embed_succeeds_def auto_config_def exchange_and_save_def
      exchangeOAuth2_def exchange_response_def exchanged_token_def Let_def
      get_opt_def coalesce_def number_or_zero_def unix_seconds_def embed_session_def
      preauthorized_token_def)

text \<open>
  C1, as stated, fails: with the strategy \<open>auto\<close>, after the mobile flow has thrown
  \<open>InvalidCredentialsError\<close> (the login endpoint answered
  \<open>INVALID_USERNAME_PASSWORD\<close>) or \<open>MfaCodeInvalidError\<close> (the verify endpoint answered
  \<open>MFA_CODE_INVALID\<close>), \<open>login\<close> runs the embed flow and returns its session.
\<close>

theorem C1_auto_fallback_counterexample:
  "authStrategy auto_config = Some auto
   \<and> getTicketViaMobileApi bad_password_mobile auto_config default_options
       = Inl (InvalidCredentialsError ''Invalid email or password.'')
   \<and> login (embed_succeeds bad_password_mobile) Map.empty auto_config default_options
       = (Inr (session_result embed_session), Map.empty,
          [MobileFlow, EmbedFlow, GetOAuthConsumer,
           GetOAuth1Token (JStr ''ST-embed'') embed_consumer, ExchangeOAuth2 embed_consumer])
   \<and> getTicketViaMobileApi bad_code_mobile auto_config code_options
       = Inl (MfaCodeInvalidError ''Invalid MFA code.'')
   \<and> login (embed_succeeds bad_code_mobile) Map.empty auto_config code_options
       = (Inr (session_result embed_session), Map.empty,
          [MobileFlow, EmbedFlow, GetOAuthConsumer,
           GetOAuth1Token (JStr ''ST-embed'') embed_consumer, ExchangeOAuth2 embed_consumer])"
proof -
  have c: "present (trimmed (email auto_config))" "present (password auto_config)"
    "authStrategy auto_config = Some auto"
    by (simp_all add: auto_config_def present_def trimmed_def trim_def is_space_def)
  have m1: "mobile_sso (embed_succeeds bad_password_mobile) = bad_password_mobile"
    and m2: "mobile_sso (embed_succeeds bad_code_mobile) = bad_code_mobile"
    by (simp_all add: embed_succeeds_def)
  show ?thesis
    by (simp add: login_def c login_mobile_def m1 m2 bad_password_mobile_fails [OF c(1,2)]
        bad_code_mobile_fails login_embed_succeeds)
qed

text \<open>
  C1, amended: with the strategy \<open>auto\<close> (also the default), every failure of the mobile
  flow, \<open>InvalidCredentialsError\<close> and \<open>MfaCodeInvalidError\<close> included, makes \<open>login\<close>
  fall back to the embed flow, whose outcome is the outcome of \<open>login\<close>; the failure of
  the mobile flow is propagated at once, with no call of the embed flow, only with the
  strategy \<open>mobile\<close>.
\<close>

theorem C1_auto_falls_back_on_every_failure:
  assumes "present (trimmed (email config))" and "present (password config)"
    and "getTicketViaMobileApi (mobile_sso w) config options = Inl err"
  shows "(authStrategy config = Some auto \<or> authStrategy config = None \<longrightarrow>
            login w fs config options =
              (fst (login_embed w fs config options), fst (snd (login_embed w fs config options)),
               MobileFlow # snd (snd (login_embed w fs config options)))
            \<and> EmbedFlow \<in> set (snd (snd (login w fs config options))))
       \<and> (authStrategy config = Some mobile \<longrightarrow>
            login w fs config options = (Inl err, fs, [MobileFlow]))"
proof (intro conjI impI)
  assume a: "authStrategy config = Some auto \<or> authStrategy config = None"
  show r: "login w fs config options =
      (fst (login_embed w fs config options), fst (snd (login_embed w fs config options)),
       MobileFlow # snd (snd (login_embed w fs config options)))"
    using a assms login_mobile_ticket_failure [OF assms(3), of fs]
    by (auto simp: login_def split: prod.splits)
  show "EmbedFlow \<in> set (snd (snd (login w fs config options)))"
    using EmbedFlow_in_login_embed [of w fs config options] by (simp add: r)
next
  assume "authStrategy config = Some mobile"
  then show "login w fs config options = (Inl err, fs, [MobileFlow])"
    using assms login_mobile_ticket_failure [OF assms(3), of fs]
    by (simp add: login_def)
qed

theorem C1_auto_falls_back_on_every_failure_witness:
  "login (embed_succeeds bad_password_mobile) Map.empty auto_config default_options
       = (Inr (session_result embed_session), Map.empty,
          [MobileFlow, EmbedFlow, GetOAuthConsumer,
           GetOAuth1Token (JStr ''ST-embed'') embed_consumer, ExchangeOAuth2 embed_consumer])
   \<and> login (embed_succeeds bad_password_mobile) Map.empty mobile_config default_options
       = (Inl (InvalidCredentialsError ''Invalid email or password.''), Map.empty, [MobileFlow])"
proof -
  have c: "present (trimmed (email auto_config))" "present (password auto_config)"
    "present (trimmed (email mobile_config))" "present (password mobile_config)"
    by (simp_all add: mobile_config_def auto_config_def present_def trimmed_def trim_def is_space_def)
  have m1: "mobile_sso (embed_succeeds bad_password_mobile) = bad_password_mobile"
    by (simp add: embed_succeeds_def)
  have f1: "getTicketViaMobileApi (mobile_sso (embed_succeeds bad_password_mobile)) auto_config
      default_options = Inl (InvalidCredentialsError ''Invalid email or password.'')"
    by (simp add: m1 bad_password_mobile_fails [OF c(1,2)])
  have f2: "getTicketViaMobileApi (mobile_sso (embed_succeeds bad_password_mobile)) mobile_config
      default_options = Inl (InvalidCredentialsError ''Invalid email or password.'')"
    by (simp add: m1 bad_password_mobile_fails [OF c(3,4)])
  have e: "login_embed (embed_succeeds bad_password_mobile) Map.empty auto_config default_options =
     (Inr (session_result embed_session), Map.empty,
      [EmbedFlow, GetOAuthConsumer, GetOAuth1Token (JStr ''ST-embed'') embed_consumer,
       ExchangeOAuth2 embed_consumer])"
    by (rule login_embed_succeeds)
  have s: "authStrategy auto_config = Some auto" "authStrategy mobile_config = Some mobile"
    by (simp_all add: auto_config_def mobile_config_def)
  from C1_auto_falls_back_on_every_failure [OF c(1,2) f1, of Map.empty]
    C1_auto_falls_back_on_every_failure [OF c(3,4) f2, of Map.empty]
  show ?thesis
    by (simp add: e s)
qed

section \<open>Single-flight refresh\<close>

lemma length_one: "length xs = Suc 0 \<Longrightarrow> xs = [xs ! 0]"
  by (cases xs) auto

lemma shares_refresh_cong:
  "promises c' = promises c \<Longrightarrow> session c' = session c \<Longrightarrow>
     shares_refresh c' x = shares_refresh c x"
  by (cases x) auto

lemma shares_refresh_pending:
  "promises c = [Pending] \<Longrightarrow> shares_refresh c x \<Longrightarrow> promises c' = [v] \<Longrightarrow> shares_refresh c' x"
  by (cases x) auto

lemma shares_refresh_fulfilled:
  "promises c = [Fulfilled s] \<Longrightarrow> shares_refresh c x \<Longrightarrow> promises c' = [Fulfilled s] \<Longrightarrow>
     session c' = s \<Longrightarrow> shares_refresh c' x"
  by (cases x) auto

lemma one_refresh_enter_joined:
  assumes "one_refresh c" "refreshPromise c = Some 0"
  shows "one_refresh (enter t c)"
  using assms
  by (auto simp: one_refresh_def enter_def shares_refresh_cong [where c'="c\<lparr>callers := f\<rparr>" and c=c for f])

lemma one_refresh_settle:
  assumes "one_refresh c"
  shows "one_refresh (step (Settle p out) c)"
proof (cases "p < length (promises c) \<and> promises c ! p = Pending")
  case False
  then have "step (Settle p out) c = c" by auto
  then show ?thesis using assms by simp
next
  case True
  with assms have p: "p = 0" and ps: "promises c = [Pending]"
    using length_one [of "promises c"] by (auto simp: one_refresh_def)
  define c' where "c' = step (Settle p out) c"
  have ps': "promises c' = [case out of Inl e \<Rightarrow> Rejected e | Inr s \<Rightarrow> Fulfilled s]"
    using True p ps by (simp add: c'_def)
  have cs: "callers c' = callers c" using True by (simp add: c'_def)
  have "one_refresh c'"
    unfolding one_refresh_def
  proof (intro conjI allI)
    show "length (promises c') = 1" using ps' by simp
    fix t
    from assms have "shares_refresh c (callers c t)" by (simp add: one_refresh_def)
    from shares_refresh_pending [OF ps this ps'] show "shares_refresh c' (callers c' t)"
      by (simp only: cs)
  qed
  then show ?thesis by (simp only: c'_def)
qed

lemma one_refresh_resume:
  assumes "one_refresh c"
  shows "one_refresh (step (Resume t) c)"
proof -
  from assms have len: "length (promises c) = 1"
    and sh: "\<And>u. shares_refresh c (callers c u)" by (simp_all add: one_refresh_def)
  have ps: "promises c = [promises c ! 0]" using len length_one by simp
  consider (idle) "callers c t = Idle" | (ret) "callers c t = Returned"
    | (raised) e where "callers c t = Raised e"
    | (waiting) p where "callers c t = Joined p \<or> callers c t = Owning p"
    by (cases "callers c t") auto
  then show ?thesis
  proof cases
    case idle then show ?thesis using assms by simp
  next
    case ret then show ?thesis using assms by simp
  next
    case raised then show ?thesis using assms by simp
  next
    case waiting
    with sh [of t] have p: "p = 0" by auto
    show ?thesis
    proof (cases "promises c ! 0")
      case Pending
      then show ?thesis using assms waiting p len
        by (auto simp: resume_joined_def resume_owning_def)
    next
      case (Fulfilled s)
      with ps have psf: "promises c = [Fulfilled s]" by simp
      define c' where "c' = step (Resume t) c"
      have ps': "promises c' = [Fulfilled s]" and se: "session c' = s"
        and cs: "callers c' = (callers c)(t := Returned)"
        using waiting p len Fulfilled psf
        by (auto simp: c'_def resume_joined_def resume_owning_def)
      have "one_refresh c'"
        unfolding one_refresh_def
      proof (intro conjI allI)
        show "length (promises c') = 1" using ps' by simp
        fix u
        show "shares_refresh c' (callers c' u)"
        proof (cases "u = t")
          case True
          then show ?thesis using ps' se cs by simp
        next
          case False
          from shares_refresh_fulfilled [OF psf sh [of u] ps' se] False cs
          show ?thesis by simp
        qed
      qed
      then show ?thesis by (simp only: c'_def)
    next
      case (Rejected e)
      with ps have psf: "promises c = [Rejected e]" by simp
      define c' where "c' = step (Resume t) c"
      have ps': "promises c' = promises c" and se: "session c' = session c"
        and cs: "callers c' = (callers c)(t := Raised e)"
        using waiting p len Rejected
        by (auto simp: c'_def resume_joined_def resume_owning_def)
      have "one_refresh c'"
        unfolding one_refresh_def
      proof (intro conjI allI)
        show "length (promises c') = 1" using ps' len by simp
        fix u
        show "shares_refresh c' (callers c' u)"
        proof (cases "u = t")
          case True
          then show ?thesis using ps' psf cs by simp
        next
          case False
          with sh [of u] shares_refresh_cong [OF ps' se, of "callers c u"] cs
          show ?thesis by simp
        qed
      qed
      then show ?thesis by (simp only: c'_def)
    qed
  qed
qed

lemma in_flight_one_refresh: "in_flight t0 c \<Longrightarrow> one_refresh c"
  by (simp add: in_flight_def one_refresh_def)

lemma in_flightI:
  assumes "refreshPromise c = Some 0" and "callers c t0 = Owning 0" and "one_refresh c"
    and "\<And>t p. callers c t = Owning p \<Longrightarrow> t = t0"
  shows "in_flight t0 c"
  using assms unfolding in_flight_def one_refresh_def by blast

lemma resume_not_owning:
  assumes "\<forall>p. callers c t \<noteq> Owning p"
  shows "refreshPromise (step (Resume t) c) = refreshPromise c
       \<and> (\<forall>u. u \<noteq> t \<longrightarrow> callers (step (Resume t) c) u = callers c u)
       \<and> (\<forall>p. callers (step (Resume t) c) t \<noteq> Owning p)"
  using assms
  by (cases "callers c t") (auto simp: resume_joined_def split: promise_state.splits)

lemma in_flight_step:
  assumes "in_flight t0 c" and "a \<noteq> Resume t0"
  shows "in_flight t0 (step a c)"
proof -
  from assms(1) have rp: "refreshPromise c = Some 0" and own: "callers c t0 = Owning 0"
    and one: "one_refresh c"
    unfolding in_flight_def one_refresh_def by blast+
  from assms(1) have only: "\<And>t p. callers c t = Owning p \<Longrightarrow> t = t0"
    unfolding in_flight_def by blast
  show ?thesis
  proof (cases a)
    case (Call t)
    show ?thesis
    proof (cases "callers c t = Idle")
      case True
      then have ne: "t \<noteq> t0" using own by auto
      have e: "step a c = c\<lparr> callers := (callers c)(t := Joined 0) \<rparr>"
        using Call True rp by (simp add: enter_def)
      have o: "one_refresh (step a c)"
        using one_refresh_enter_joined [OF one rp, of t] Call True by simp
      show ?thesis
      proof (rule in_flightI [OF _ _ o])
        show "refreshPromise (step a c) = Some 0" using rp by (simp add: e)
        show "callers (step a c) t0 = Owning 0" using own ne by (simp add: e)
        fix u p assume "callers (step a c) u = Owning p"
        then have "callers c u = Owning p" by (simp add: e split: if_splits)
        then show "u = t0" by (rule only)
      qed
    next
      case False
      then have "step a c = c" using Call by simp
      then show ?thesis using assms(1) by simp
    qed
  next
    case (Settle p out)
    have o: "one_refresh (step a c)" using one_refresh_settle [OF one, of p out] Settle by simp
    have r: "refreshPromise (step a c) = refreshPromise c" "callers (step a c) = callers c"
      using Settle by simp_all
    show ?thesis
    proof (rule in_flightI [OF _ _ o])
      show "refreshPromise (step a c) = Some 0" using rp by (simp only: r)
      show "callers (step a c) t0 = Owning 0" using own by (simp only: r)
      fix u q assume "callers (step a c) u = Owning q"
      then have "callers c u = Owning q" by (simp only: r)
      then show "u = t0" by (rule only)
    qed
  next
    case (Resume t)
    then have ne: "t \<noteq> t0" using assms(2) by simp
    have o: "one_refresh (step a c)" using one_refresh_resume [OF one, of t] Resume by simp
    have notown: "\<forall>p. callers c t \<noteq> Owning p" using only ne by blast
    from resume_not_owning [OF notown] Resume
    have r: "refreshPromise (step a c) = refreshPromise c"
      and k: "\<And>u. u \<noteq> t \<Longrightarrow> callers (step a c) u = callers c u"
      and kt: "\<And>p. callers (step a c) t \<noteq> Owning p"
      by simp_all
    show ?thesis
    proof (rule in_flightI [OF _ _ o])
      show "refreshPromise (step a c) = Some 0" using rp by (simp only: r)
      show "callers (step a c) t0 = Owning 0" using own ne k [of t0] by simp
      fix u q assume h: "callers (step a c) u = Owning q"
      then have "u \<noteq> t" using kt by blast
      with h k have "callers c u = Owning q" by simp
      then show "u = t0" by (rule only)
    qed
  qed
qed

lemma run_in_flight:
  "in_flight t0 c \<Longrightarrow> Resume t0 \<notin> set acts \<Longrightarrow> in_flight t0 (run acts c)"
proof (induction acts arbitrary: c)
  case Nil
  then show ?case by simp
next
  case (Cons a acts)
  then have "in_flight t0 (step a c)" using in_flight_step [of t0 c a] by auto
  with Cons show ?case by simp
qed

lemma run_one_refresh:
  "one_refresh c \<Longrightarrow> \<forall>a\<in>set acts. \<not> is_Call a \<Longrightarrow> one_refresh (run acts c)"
proof (induction acts arbitrary: c)
  case Nil
  then show ?case by simp
next
  case (Cons a acts)
  have "one_refresh (step a c)"
  proof (cases a)
    case (Call t)
    with Cons.prems show ?thesis by simp
  next
    case (Settle p out)
    then show ?thesis using one_refresh_settle [OF Cons.prems(1)] by simp
  next
    case (Resume t)
    then show ?thesis using one_refresh_resume [OF Cons.prems(1)] by simp
  qed
  with Cons show ?case by simp
qed

lemma run_append: "run (xs @ ys) c = run ys (run xs c)"
  by (induction xs arbitrary: c) simp_all

lemma first_call_in_flight: "in_flight t0 (step (Call t0) (new_client s))"
  by (simp add: in_flight_def new_client_def enter_def)

text \<open>
  C9: from a client with no refresh in flight, let a caller \<open>t0\<close> enter
  \<open>refreshSession\<close>, then let any number of callers enter, promises settle and callers
  resume, in any order, as long as \<open>t0\<close> has not resumed (\<open>acts1\<close>), and then let
  promises settle and callers resume with no new caller entering (\<open>acts2\<close>). Exactly
  one call of \<open>refreshOAuth2\<close> was made; every caller that entered awaits its promise,
  or has returned with the session it was fulfilled with, or has thrown the error it
  was rejected with.
\<close>

theorem C9_single_flight:
  assumes "Resume t0 \<notin> set acts1" and "\<forall>a\<in>set acts2. \<not> is_Call a"
  shows "length (promises (run (Call t0 # acts1 @ acts2) (new_client s))) = 1
       \<and> (\<forall>t. shares_refresh (run (Call t0 # acts1 @ acts2) (new_client s))
                 (callers (run (Call t0 # acts1 @ acts2) (new_client s)) t))
       \<and> refreshPromise (run (Call t0 # acts1) (new_client s)) = Some 0"
proof -
  have a: "in_flight t0 (run acts1 (step (Call t0) (new_client s)))"
    using run_in_flight [OF first_call_in_flight assms(1)] .
  from run_one_refresh [OF in_flight_one_refresh [OF a] assms(2)]
  have "one_refresh (run (Call t0 # acts1 @ acts2) (new_client s))"
    by (simp add: run_append)
  with a show ?thesis by (simp add: one_refresh_def in_flight_def)
qed

lemma wave_run:
  "run (Call 0 # wave_in_flight @ wave_rest) (new_client example_session) =
     \<lparr> session = refreshed_session, refreshPromise = None,
       promises = [Fulfilled refreshed_session],
       callers = ((\<lambda>t. Idle)(0 := Returned, 1 := Returned, 2 := Returned)) \<rparr>"
  by (auto simp: wave_in_flight_def wave_rest_def new_client_def enter_def resume_joined_def
      resume_owning_def fun_eq_iff)

theorem C9_single_flight_witness:
  "length (promises (run (Call 0 # wave_in_flight @ wave_rest) (new_client example_session))) = 1
   \<and> promises (run (Call 0 # wave_in_flight @ wave_rest) (new_client example_session))
       = [Fulfilled refreshed_session]
   \<and> session (run (Call 0 # wave_in_flight @ wave_rest) (new_client example_session))
       = refreshed_session
   \<and> callers (run (Call 0 # wave_in_flight @ wave_rest) (new_client example_session)) 0 = Returned
   \<and> callers (run (Call 0 # wave_in_flight @ wave_rest) (new_client example_session)) 1 = Returned
   \<and> callers (run (Call 0 # wave_in_flight @ wave_rest) (new_client example_session)) 2 = Returned"
proof -
  have a: "Resume 0 \<notin> set wave_in_flight" by (simp add: wave_in_flight_def)
  have b: "\<forall>a\<in>set wave_rest. \<not> is_Call a" by (simp add: wave_rest_def)
  from C9_single_flight [OF a b, of example_session] show ?thesis
    unfolding wave_run by simp
qed

section \<open>Signed requests: the OAuth1 header\<close>



























end
